theory Spec2Isabelle
  imports Complex_Main "HOL-Library.Monad_Syntax" "HOL-Library.Multiset"
begin

section \<open>JavaScript values used by the points calculator\<close>

text \<open>
  The module \<^verbatim>\<open>ranking-calculator.js\<close> computes with JavaScript Numbers. A Number is
  modelled as a rational or one of the three special values. The range of binary64 is
  modelled: a result too large in size is an infinity, one too small is 0. Within the
  range a result is kept exact: the rounding of the significand to 53 bits is not
  modelled, nor is the sign of zero (\<open>-0\<close> is \<open>Fin 0\<close>). Counts and points, which the
  module only adds and multiplies by 10, are integers.
\<close>

datatype jsnum = Fin rat | PInf | NInf | NaN

text \<open>
  The Number for a real result, under rounding to nearest. The largest binary64 is
  \<open>2 ^ 1024 - 2 ^ 971\<close>; a result of size \<open>2 ^ 1024 - 2 ^ 970\<close> or more, half a step beyond
  it, rounds to an infinity. The smallest positive binary64 is \<open>1 / 2 ^ 1074\<close>; a result
  of size at most half of it rounds to 0.
\<close>

definition overflow_bound :: rat where
  "overflow_bound = of_int (2 ^ 1024 - 2 ^ 970)"

definition underflow_bound :: rat where
  "underflow_bound = 1 / of_int (2 ^ 1075)"

definition number_value :: "rat \<Rightarrow> jsnum" where
  "number_value x =
     (if overflow_bound \<le> x then PInf
      else if x \<le> - overflow_bound then NInf
      else if \<bar>x\<bar> \<le> underflow_bound then Fin 0
      else Fin x)"

text \<open>The operators \<^verbatim>\<open>+\<close>, \<^verbatim>\<open>*\<close>, \<^verbatim>\<open>/\<close> and \<^verbatim>\<open>>=\<close> on Numbers.\<close>

fun jadd :: "jsnum \<Rightarrow> jsnum \<Rightarrow> jsnum" where
  "jadd NaN _ = NaN"
| "jadd _ NaN = NaN"
| "jadd (Fin a) (Fin b) = number_value (a + b)"
| "jadd PInf NInf = NaN"
| "jadd NInf PInf = NaN"
| "jadd PInf _ = PInf"
| "jadd _ PInf = PInf"
| "jadd NInf _ = NInf"
| "jadd _ NInf = NInf"

fun jneg :: "jsnum \<Rightarrow> jsnum" where
  "jneg (Fin a) = Fin (- a)"
| "jneg PInf = NInf"
| "jneg NInf = PInf"
| "jneg NaN = NaN"

fun jmul :: "jsnum \<Rightarrow> jsnum \<Rightarrow> jsnum" where
  "jmul NaN _ = NaN"
| "jmul _ NaN = NaN"
| "jmul (Fin a) (Fin b) = number_value (a * b)"
| "jmul (Fin a) y = (if a = 0 then NaN else if 0 < a then y else jneg y)"
| "jmul x (Fin b) = (if b = 0 then NaN else if 0 < b then x else jneg x)"
| "jmul PInf y = y"
| "jmul NInf y = jneg y"

fun jdiv :: "jsnum \<Rightarrow> jsnum \<Rightarrow> jsnum" where
  "jdiv NaN _ = NaN"
| "jdiv _ NaN = NaN"
| "jdiv (Fin a) (Fin b) =
     (if b = 0 then (if a = 0 then NaN else if 0 < a then PInf else NInf)
      else number_value (a / b))"
| "jdiv (Fin a) _ = Fin 0"
| "jdiv x (Fin b) = (if 0 \<le> b then x else jneg x)"
| "jdiv _ _ = NaN"

fun jge :: "jsnum \<Rightarrow> jsnum \<Rightarrow> bool" where
  "jge NaN _ = False"
| "jge _ NaN = False"
| "jge (Fin a) (Fin b) = (b \<le> a)"
| "jge PInf _ = True"
| "jge _ NInf = True"
| "jge _ _ = False"

text \<open>\<^verbatim>\<open>x || 0\<close> on a Number: the falsy Numbers are \<open>0\<close> and \<open>NaN\<close>.\<close>

fun or_zero :: "jsnum \<Rightarrow> jsnum" where
  "or_zero NaN = Fin 0"
| "or_zero x = x"

text \<open>
  \<^verbatim>\<open>parseFloat(x.toFixed(2))\<close>: \<^verbatim>\<open>toFixed\<close> picks the integer \<open>n\<close> with \<open>n / 100\<close>
  nearest to \<open>\<bar>x\<bar>\<close>, the larger one on a tie, and keeps the sign; from \<open>10\<^sup>2\<^sup>1\<close> on, and
  for the special values, it prints the Number itself, which \<^verbatim>\<open>parseFloat\<close> reads back.
\<close>

fun toFixed2 :: "jsnum \<Rightarrow> jsnum" where
  "toFixed2 (Fin x) =
     (if 10 ^ 21 \<le> \<bar>x\<bar> then Fin x
      else Fin (sgn x * (of_int \<lfloor>\<bar>x\<bar> * 100 + 1 / 2\<rfloor> / 100)))"
| "toFixed2 x = x"

text \<open>
  The values a shift field can hold. Only strings and Numbers are inspected by the module;
  every other object is \<open>Object\<close>.
\<close>

datatype jsval = Undefined | Null | Boolean bool | Number jsnum | String string | Object

section \<open>Text: \<^verbatim>\<open>split\<close>, \<^verbatim>\<open>parseInt\<close>, \<^verbatim>\<open>parseFloat\<close>\<close>

text \<open>
  Strings are lists of 8-bit characters: the texts whose code units are below 256. The
  white space and line ends that the parsers skip are, among these, TAB, LF, VT, FF, CR,
  SP and the no-break space U+00A0.
\<close>

definition is_digit :: "char \<Rightarrow> bool" where
  "is_digit c = (48 \<le> (of_char c :: int) \<and> (of_char c :: int) \<le> 57)"

definition digit_val :: "char \<Rightarrow> int" where
  "digit_val c = of_char c - 48"

definition is_space :: "char \<Rightarrow> bool" where
  "is_space c =
     ((9 \<le> (of_char c :: int) \<and> (of_char c :: int) \<le> 13) \<or> (of_char c :: int) = 32
      \<or> (of_char c :: int) = 160)"

definition is_hex_digit :: "char \<Rightarrow> bool" where
  "is_hex_digit c =
     (is_digit c \<or> (65 \<le> (of_char c :: int) \<and> (of_char c :: int) \<le> 70)
      \<or> (97 \<le> (of_char c :: int) \<and> (of_char c :: int) \<le> 102))"

definition hex_digit_val :: "char \<Rightarrow> int" where
  "hex_digit_val c =
     (if is_digit c then digit_val c
      else if (of_char c :: int) \<le> 70 then of_char c - 55 else of_char c - 87)"

definition digits_val :: "string \<Rightarrow> int" where
  "digits_val ds = foldl (\<lambda>a c. 10 * a + digit_val c) 0 ds"

definition hex_digits_val :: "string \<Rightarrow> int" where
  "hex_digits_val ds = foldl (\<lambda>a c. 16 * a + hex_digit_val c) 0 ds"

text \<open>\<^verbatim>\<open>s.split(c)\<close> for a one-character separator: never empty, \<open>[[]]\<close> on the empty string.\<close>

fun split_on :: "char \<Rightarrow> string \<Rightarrow> string list" where
  "split_on c [] = [[]]"
| "split_on c (x # xs) =
     (if x = c then [] # split_on c xs
      else (case split_on c xs of
              [] \<Rightarrow> [[x]]
            | p # ps \<Rightarrow> (x # p) # ps))"

text \<open>An optional sign in front of a numeral: whether it is negative, and the rest.\<close>

fun take_sign :: "string \<Rightarrow> bool \<times> string" where
  "take_sign [] = (False, [])"
| "take_sign (c # cs) =
     (if c = CHR ''-'' then (True, cs)
      else if c = CHR ''+'' then (False, cs)
      else (False, c # cs))"

text \<open>
  \<^verbatim>\<open>parseInt(s)\<close> with no radix: leading white space, a sign, \<^verbatim>\<open>0x\<close> or \<^verbatim>\<open>0X\<close> for
  base 16, then the longest run of digits; \<open>NaN\<close> when that run is empty, else the
  Number for the integer read.
\<close>

definition parseInt :: "string \<Rightarrow> jsnum" where
  "parseInt s =
     (let (neg, s2) = take_sign (dropWhile is_space s);
          hex = (take 2 s2 = ''0x'' \<or> take 2 s2 = ''0X'');
          z = (if hex then takeWhile is_hex_digit (drop 2 s2) else takeWhile is_digit s2);
          v = (if hex then hex_digits_val z else digits_val z)
      in if z = [] then NaN
         else number_value (if neg then - of_int v else of_int v))"

text \<open>
  The exponent part of a decimal literal: \<^verbatim>\<open>e\<close> or \<^verbatim>\<open>E\<close>, a sign, at least one digit.
  Anything else is not part of the numeral and the exponent is 0.
\<close>

definition exponent_part :: "string \<Rightarrow> int" where
  "exponent_part s =
     (case s of
        [] \<Rightarrow> 0
      | c # cs \<Rightarrow>
          if c = CHR ''e'' \<or> c = CHR ''E'' then
            (let (neg, ds) = take_sign cs; e = takeWhile is_digit ds
             in if e = [] then 0
                else if neg then - digits_val e else digits_val e)
          else 0)"

text \<open>
  \<^verbatim>\<open>parseFloat(s)\<close>: leading white space, then the longest prefix that is a decimal
  literal (\<^verbatim>\<open>Infinity\<close>, or digits with an optional fraction and exponent, signed);
  \<open>NaN\<close> when there is none, else the Number for the value of the literal.
\<close>

definition parseFloat :: "string \<Rightarrow> jsnum" where
  "parseFloat s =
     (let (neg, s2) = take_sign (dropWhile is_space s)
      in if take 8 s2 = ''Infinity'' then (if neg then NInf else PInf)
         else
           (let ip = takeWhile is_digit s2;
                r1 = dropWhile is_digit s2;
                dot = (r1 \<noteq> [] \<and> hd r1 = CHR ''.'');
                fp = (if dot then takeWhile is_digit (tl r1) else []);
                r2 = (if dot then dropWhile is_digit (tl r1) else r1);
                m = of_int (digits_val ip) + of_int (digits_val fp) / 10 ^ length fp;
                v = m * 10 powi exponent_part r2
            in if ip = [] \<and> fp = [] then NaN
               else number_value (if neg then - v else v)))"

section \<open>Durations and the online percentage\<close>

text \<open>
  \<^verbatim>\<open>durationToSeconds\<close>: anything that is not a non-empty string of exactly three
  colon-separated fields is 0 seconds; a field that does not parse counts as 0.
\<close>

definition durationToSeconds :: "jsval \<Rightarrow> jsnum" where
  "durationToSeconds duration =
     (case duration of
        String s \<Rightarrow>
          if s = [] then Fin 0
          else (case split_on CHR '':'' s of
                  [p0, p1, p2] \<Rightarrow>
                    (let hours = or_zero (parseInt p0);
                         minutes = or_zero (parseInt p1);
                         seconds = or_zero (parseFloat p2)
                     in jadd (jadd (jmul hours (Fin 3600)) (jmul minutes (Fin 60))) seconds)
                | _ \<Rightarrow> Fin 0)
      | _ \<Rightarrow> Fin 0)"

definition calcularPercentualOnline :: "jsval \<Rightarrow> jsval \<Rightarrow> jsnum" where
  "calcularPercentualOnline tempoOnline duracaoTurno =
     (let segundosOnline = durationToSeconds tempoOnline;
          segundosTurno = durationToSeconds duracaoTurno
      in if segundosTurno = Fin 0 then Fin 0
         else jmul (jdiv segundosOnline segundosTurno) (Fin 100))"

section \<open>Dates: \<^verbatim>\<open>new Date(text)\<close> and the UTC getters\<close>

text \<open>
  A \<^verbatim>\<open>Date\<close> holds a time value: milliseconds since 1970-01-01T00:00:00Z, or \<open>NaN\<close>
  (\<open>None\<close>, an invalid date). Two things are left to the host by the language: the offset
  of the local time zone, and how a text outside the ISO date-time format is read. Both
  are parameters of the model.
\<close>

record js_env =
  localTZA :: "int \<Rightarrow> int"
  legacy_parse :: "string \<Rightarrow> int option"

definition msPerDay :: int where
  "msPerDay = 86400000"

definition is_leap :: "int \<Rightarrow> bool" where
  "is_leap y = (y mod 4 = 0 \<and> (y mod 100 \<noteq> 0 \<or> y mod 400 = 0))"

definition days_in_month :: "int \<Rightarrow> int \<Rightarrow> int" where
  "days_in_month y m =
     (if m = 2 then (if is_leap y then 29 else 28)
      else if m = 4 \<or> m = 6 \<or> m = 9 \<or> m = 11 then 30 else 31)"

text \<open>
  Day number of a date of the proleptic Gregorian calendar (day 0 is 1970-01-01), and
  back; years are counted from March within 400-year eras of 146097 days.
\<close>

definition days_from_civil :: "int \<Rightarrow> int \<Rightarrow> int \<Rightarrow> int" where
  "days_from_civil y m d =
     (let y' = (if m \<le> 2 then y - 1 else y);
          era = y' div 400;
          yoe = y' - era * 400;
          mp = (if 2 < m then m - 3 else m + 9);
          doy = (153 * mp + 2) div 5 + d - 1;
          doe = yoe * 365 + yoe div 4 - yoe div 100 + doy
      in era * 146097 + doe - 719468)"

definition civil_from_days :: "int \<Rightarrow> int \<times> int \<times> int" where
  "civil_from_days z0 =
     (let z = z0 + 719468;
          era = z div 146097;
          doe = z - era * 146097;
          yoe = (doe - doe div 1460 + doe div 36524 - doe div 146096) div 365;
          doy = doe - (365 * yoe + yoe div 4 - yoe div 100);
          mp = (5 * doy + 2) div 153;
          d = doy - (153 * mp + 2) div 5 + 1;
          m = (if mp < 10 then mp + 3 else mp - 9);
          y = yoe + era * 400
      in (if m \<le> 2 then y + 1 else y, m, d))"

text \<open>\<^verbatim>\<open>getUTCDate()\<close> and \<^verbatim>\<open>getUTCMonth()\<close> (0 to 11); \<open>None\<close> is \<open>NaN\<close>.\<close>

definition getUTCDate :: "int option \<Rightarrow> int option" where
  "getUTCDate tv = map_option (\<lambda>t. snd (snd (civil_from_days (t div msPerDay)))) tv"

definition getUTCMonth :: "int option \<Rightarrow> int option" where
  "getUTCMonth tv = map_option (\<lambda>t. fst (snd (civil_from_days (t div msPerDay))) - 1) tv"

text \<open>Exactly \<open>n\<close> decimal digits at the head of a text.\<close>

definition read_digits :: "nat \<Rightarrow> string \<Rightarrow> (int \<times> string) option" where
  "read_digits n s =
     (if n \<le> length s \<and> list_all is_digit (take n s)
      then Some (digits_val (take n s), drop n s) else None)"

definition expect_char :: "char \<Rightarrow> string \<Rightarrow> string option" where
  "expect_char c s = (case s of [] \<Rightarrow> None | x # xs \<Rightarrow> if x = c then Some xs else None)"

text \<open>
  The date part of the ISO format: \<^verbatim>\<open>YYYY\<close>, \<^verbatim>\<open>YYYY-MM\<close> or \<^verbatim>\<open>YYYY-MM-DD\<close>, the year
  also as a sign and six digits (but not \<^verbatim>\<open>-000000\<close>).
\<close>

definition parse_iso_year :: "string \<Rightarrow> (int \<times> string) option" where
  "parse_iso_year s =
     (case s of
        [] \<Rightarrow> None
      | c # cs \<Rightarrow>
          if c = CHR ''+'' then read_digits 6 cs
          else if c = CHR ''-'' then
            (case read_digits 6 cs of
               None \<Rightarrow> None
             | Some (y, r) \<Rightarrow> if y = 0 then None else Some (- y, r))
          else read_digits 4 s)"

definition parse_iso_date :: "string \<Rightarrow> ((int \<times> int \<times> int) \<times> string) option" where
  "parse_iso_date s =
     do {
       (y, r1) \<leftarrow> parse_iso_year s;
       if r1 = [] \<or> hd r1 \<noteq> CHR ''-'' then Some ((y, 1, 1), r1)
       else do {
         (m, r2) \<leftarrow> read_digits 2 (tl r1);
         if m < 1 \<or> 12 < m then None
         else if r2 = [] \<or> hd r2 \<noteq> CHR ''-'' then Some ((y, m, 1), r2)
         else do {
           (d, r3) \<leftarrow> read_digits 2 (tl r2);
           if d < 1 \<or> days_in_month y m < d then None else Some ((y, m, d), r3)
         }
       }
     }"

text \<open>
  The time part after \<^verbatim>\<open>T\<close>: \<^verbatim>\<open>HH:mm\<close>, \<^verbatim>\<open>HH:mm:ss\<close> or \<^verbatim>\<open>HH:mm:ss.sss\<close>, in
  milliseconds of the day; hour 24 only as \<^verbatim>\<open>24:00:00.000\<close>.
\<close>

definition parse_iso_time :: "string \<Rightarrow> (int \<times> string) option" where
  "parse_iso_time s =
     do {
       (h, r1) \<leftarrow> read_digits 2 s;
       r2 \<leftarrow> expect_char CHR '':'' r1;
       (mi, r3) \<leftarrow> read_digits 2 r2;
       (sec, r5) \<leftarrow>
         (if r3 \<noteq> [] \<and> hd r3 = CHR '':'' then read_digits 2 (tl r3) else Some (0, r3));
       (ms, r7) \<leftarrow>
         (if r3 \<noteq> [] \<and> hd r3 = CHR '':'' \<and> r5 \<noteq> [] \<and> hd r5 = CHR ''.''
          then read_digits 3 (tl r5) else Some (0, r5));
       if 24 < h \<or> 59 < mi \<or> 59 < sec \<or> (h = 24 \<and> (mi \<noteq> 0 \<or> sec \<noteq> 0 \<or> ms \<noteq> 0))
       then None
       else Some (h * 3600000 + mi * 60000 + sec * 1000 + ms, r7)
     }"

text \<open>
  The UTC offset that ends a date-time, in milliseconds: none, \<^verbatim>\<open>Z\<close>, or
  \<^verbatim>\<open>+HH:mm\<close> or \<^verbatim>\<open>-HH:mm\<close>. The outer \<open>None\<close> is a text outside the format.
\<close>

definition parse_iso_offset :: "string \<Rightarrow> int option option" where
  "parse_iso_offset s =
     (if s = [] then Some None
      else if s = ''Z'' then Some (Some 0)
      else if hd s = CHR ''+'' \<or> hd s = CHR ''-'' then
        do {
          (h, r1) \<leftarrow> read_digits 2 (tl s);
          r2 \<leftarrow> expect_char CHR '':'' r1;
          (mi, r3) \<leftarrow> read_digits 2 r2;
          if r3 \<noteq> [] \<or> 23 < h \<or> 59 < mi then None
          else Some (Some ((if hd s = CHR ''-'' then - 1 else 1)
                             * (h * 3600000 + mi * 60000)))
        }
      else None)"

text \<open>
  A text in the ISO format gives its instant: a date alone is UTC midnight, a date-time
  with an offset is that instant, a date-time with none is local time.
\<close>

definition parse_iso :: "js_env \<Rightarrow> string \<Rightarrow> int option" where
  "parse_iso env s =
     do {
       ((y, m, d), r1) \<leftarrow> parse_iso_date s;
       let day = days_from_civil y m d * msPerDay;
       if r1 = [] then Some day
       else do {
         r2 \<leftarrow> expect_char CHR ''T'' r1;
         (tm, r3) \<leftarrow> parse_iso_time r2;
         off \<leftarrow> parse_iso_offset r3;
         (case off of
            Some ofs \<Rightarrow> Some (day + tm - ofs)
          | None \<Rightarrow> Some (day + tm - localTZA env (day + tm)))
       }
     }"

definition timeClip :: "int option \<Rightarrow> int option" where
  "timeClip tv =
     (case tv of
        None \<Rightarrow> None
      | Some t \<Rightarrow> if 8640000000000000 < \<bar>t\<bar> then None else Some t)"

text \<open>\<^verbatim>\<open>new Date(s)\<close> for a string \<open>s\<close>: the time value of the new object.\<close>

definition newDate :: "js_env \<Rightarrow> string \<Rightarrow> int option" where
  "newDate env s =
     timeClip (case parse_iso env s of
                 Some t \<Rightarrow> Some t
               | None \<Rightarrow> legacy_parse env s)"

definition isDataEspecial :: "int option \<Rightarrow> bool" where
  "isDataEspecial date =
     (let dia = getUTCDate date;
          mes = map_option (\<lambda>m. m + 1) (getUTCMonth date)
      in (dia = Some 24 \<and> mes = Some 12) \<or>
         (dia = Some 25 \<and> mes = Some 12) \<or>
         (dia = Some 31 \<and> mes = Some 12) \<or>
         (dia = Some 1 \<and> mes = Some 1))"

section \<open>Scoring one shift\<close>

text \<open>
  A shift as imported: the fields the module reads. The identifier is taken as the text
  JavaScript turns it into when it is used as a key, the date is a string, and a missing
  count is \<open>None\<close>. The two fields that name the worker are shared by shifts and
  ranking rows.
\<close>

record entregador =
  id_da_pessoa_entregadora :: string
  pessoa_entregadora :: string

record turno = entregador +
  data_do_periodo :: string
  duracao_do_periodo :: jsval
  tempo_disponivel_absoluto :: jsval
  numero_de_corridas_completadas :: "int option"

text \<open>\<^verbatim>\<open>turno.numero_de_corridas_completadas || 0\<close>\<close>

definition corridas :: "'a turno_scheme \<Rightarrow> int" where
  "corridas t = (case numero_de_corridas_completadas t of None \<Rightarrow> 0 | Some n \<Rightarrow> n)"

text \<open>The object that \<^verbatim>\<open>calcularPontosTurno\<close> returns.\<close>

record pontos =
  percentual_tempo_online :: jsnum
  pontos_entregas :: int
  bonus_90_online :: int
  bonus_data_especial :: int
  total_pontos_turno :: int

definition calcularPontosTurno :: "js_env \<Rightarrow> 'a turno_scheme \<Rightarrow> pontos" where
  "calcularPontosTurno env t =
     (let percentualOnline =
            calcularPercentualOnline (tempo_disponivel_absoluto t) (duracao_do_periodo t);
          isOnline90Plus = jge percentualOnline (Fin 90);
          dataEspecial = isDataEspecial (newDate env (data_do_periodo t));
          pontosEntregas = corridas t * 10;
          bonus90Online = (if isOnline90Plus then 50 else 0);
          bonusDataEspecial = (if isOnline90Plus \<and> dataEspecial then 50 else 0);
          totalPontosTurno = pontosEntregas + bonus90Online + bonusDataEspecial
      in \<lparr> percentual_tempo_online = toFixed2 percentualOnline,
           pontos_entregas = pontosEntregas,
           bonus_90_online = bonus90Online,
           bonus_data_especial = bonusDataEspecial,
           total_pontos_turno = totalPontosTurno \<rparr>)"

section \<open>Daily goal: grouping by worker and day\<close>

text \<open>
  \<^verbatim>\<open>processarTodosOsTurnos\<close> builds one new object per shift and later compares objects
  with \<^verbatim>\<open>===\<close>. An object is modelled by its position in \<^verbatim>\<open>turnosComPontos\<close> paired
  with its contents, so that two shifts with equal contents stay different objects.
  The source spreads the five properties of \<^verbatim>\<open>pontos\<close> into the shift; here they stay
  together in one field.
\<close>

record turno_com_pontos = turno +
  pontos :: pontos

record turno_final = turno_com_pontos +
  entregas_no_dia :: int
  bonus_meta_diaria :: int
  total_pontos_final :: int

datatype js_error = TypeError

text \<open>\<^verbatim>\<open>turno.data_do_periodo.split('T')[0]\<close>\<close>

definition dia :: "'a turno_scheme \<Rightarrow> string" where
  "dia t = (case split_on CHR ''T'' (data_do_periodo t) of [] \<Rightarrow> ''undefined'' | p # _ \<Rightarrow> p)"

definition chave :: "'a turno_scheme \<Rightarrow> string" where
  "chave t = id_da_pessoa_entregadora t @ ''|'' @ dia t"

text \<open>
  The groups: a map from key to the objects of that key, in the order met. Every key holds
  a \<^verbatim>\<open>|\<close>, so none is a name that the object \<^verbatim>\<open>grupos\<close> inherits.
\<close>

definition agruparPorDiaEntregador ::
  "(nat \<times> 'a turno_scheme) list \<Rightarrow> (string \<rightharpoonup> (nat \<times> 'a turno_scheme) list)" where
  "agruparPorDiaEntregador turnos =
     foldl (\<lambda>grupos r.
              grupos(chave (snd r) \<mapsto>
                (case grupos (chave (snd r)) of None \<Rightarrow> [] | Some g \<Rightarrow> g) @ [r]))
           Map.empty turnos"

definition calcularEntregasNoDia :: "(nat \<times> 'a turno_scheme) list \<Rightarrow> int" where
  "calcularEntregasNoDia turnosDoDia = foldl (\<lambda>total r. total + corridas (snd r)) 0 turnosDoDia"

definition calcularBonusMetaDiaria :: "int \<Rightarrow> int" where
  "calcularBonusMetaDiaria entregasNoDia =
     (if 30 \<le> entregasNoDia then 300
      else if 20 \<le> entregasNoDia then 200
      else 0)"

definition comPontos :: "js_env \<Rightarrow> turno \<Rightarrow> turno_com_pontos" where
  "comPontos env t =
     \<lparr> id_da_pessoa_entregadora = id_da_pessoa_entregadora t,
       pessoa_entregadora = pessoa_entregadora t,
       data_do_periodo = data_do_periodo t,
       duracao_do_periodo = duracao_do_periodo t,
       tempo_disponivel_absoluto = tempo_disponivel_absoluto t,
       numero_de_corridas_completadas = numero_de_corridas_completadas t,
       pontos = calcularPontosTurno env t \<rparr>"

text \<open>
  The body of the second \<^verbatim>\<open>map\<close>, once \<^verbatim>\<open>turnosDoDia\<close> is known: the shift
  \<open>r\<close> with the three fields of the daily goal. \<^verbatim>\<open>turnosDoDia[0] === turno\<close> compares
  objects; on an empty array it compares \<^verbatim>\<open>undefined\<close> with an object and is false.
\<close>

definition anexar_meta ::
  "(nat \<times> turno_com_pontos) list \<Rightarrow> nat \<times> turno_com_pontos \<Rightarrow> turno_final" where
  "anexar_meta turnosDoDia r =
     (let t = snd r;
          entregasNoDia = calcularEntregasNoDia turnosDoDia;
          primeiroTurnoDoDia =
            (case turnosDoDia of [] \<Rightarrow> False | r0 # _ \<Rightarrow> fst r0 = fst r);
          bonusMetaDiaria =
            (if primeiroTurnoDoDia then calcularBonusMetaDiaria entregasNoDia else 0);
          totalPontosFinal = total_pontos_turno (pontos t) + bonusMetaDiaria
      in \<lparr> id_da_pessoa_entregadora = id_da_pessoa_entregadora t,
           pessoa_entregadora = pessoa_entregadora t,
           data_do_periodo = data_do_periodo t,
           duracao_do_periodo = duracao_do_periodo t,
           tempo_disponivel_absoluto = tempo_disponivel_absoluto t,
           numero_de_corridas_completadas = numero_de_corridas_completadas t,
           pontos = pontos t,
           entregas_no_dia = entregasNoDia,
           bonus_meta_diaria = bonusMetaDiaria,
           total_pontos_final = totalPontosFinal \<rparr>)"

text \<open>
  The lookup \<^verbatim>\<open>gruposPorDia[chave]\<close> in front of it. A key with no group would make
  \<^verbatim>\<open>calcularEntregasNoDia\<close> call \<^verbatim>\<open>reduce\<close> on \<^verbatim>\<open>undefined\<close>, a \<^verbatim>\<open>TypeError\<close>.
\<close>

definition finalizar ::
  "(string \<rightharpoonup> (nat \<times> turno_com_pontos) list) \<Rightarrow> nat \<times> turno_com_pontos
     \<Rightarrow> js_error + turno_final" where
  "finalizar gruposPorDia r =
     (case gruposPorDia (chave (snd r)) of
        None \<Rightarrow> Inl TypeError
      | Some turnosDoDia \<Rightarrow> Inr (anexar_meta turnosDoDia r))"

text \<open>A \<^verbatim>\<open>map\<close> whose callback may throw: the first error ends it.\<close>

fun map_ou_erro :: "('a \<Rightarrow> js_error + 'b) \<Rightarrow> 'a list \<Rightarrow> js_error + 'b list" where
  "map_ou_erro f [] = Inr []"
| "map_ou_erro f (x # xs) =
     (case f x of
        Inl e \<Rightarrow> Inl e
      | Inr y \<Rightarrow> (case map_ou_erro f xs of Inl e \<Rightarrow> Inl e | Inr ys \<Rightarrow> Inr (y # ys)))"

definition processarTodosOsTurnos :: "js_env \<Rightarrow> turno list \<Rightarrow> js_error + turno_final list" where
  "processarTodosOsTurnos env turnos =
     (let turnosComPontos = enumerate 0 (map (comPontos env) turnos);
          gruposPorDia = agruparPorDiaEntregador turnosComPontos
      in map_ou_erro (finalizar gruposPorDia) turnosComPontos)"

section \<open>What the daily goal is meant to give\<close>

text \<open>
  The shifts of one worker on one calendar day, in the order of the input; the day is the
  text of the date in front of the first \<^verbatim>\<open>T\<close>.
\<close>

definition grupo_do_dia :: "string \<Rightarrow> string \<Rightarrow> 'a turno_scheme list \<Rightarrow> 'a turno_scheme list" where
  "grupo_do_dia w d turnos =
     filter (\<lambda>t. id_da_pessoa_entregadora t = w \<and> dia t = d) turnos"

section \<open>The ranking\<close>

text \<open>
  \<^verbatim>\<open>entregadores\<close> is a plain object used as a dictionary. Its own properties are an
  association list in the order of creation. A read also finds what the object inherits
  from \<^verbatim>\<open>Object.prototype\<close>: under these names the read gives a built-in object, which is
  truthy, so no row is created and the four updates are written to that built-in object.
\<close>

definition object_prototype_keys :: "string list" where
  "object_prototype_keys =
     [''constructor'', ''toString'', ''toLocaleString'', ''valueOf'', ''hasOwnProperty'',
      ''isPrototypeOf'', ''propertyIsEnumerable'', ''__proto__'', ''__defineGetter__'',
      ''__defineSetter__'', ''__lookupGetter__'', ''__lookupSetter__'']"

record totais = entregador +
  total_pontos :: int
  total_entregas :: int
  total_turnos :: int

record acumulado = totais +
  soma_percentual_online :: jsnum

record linha_ranking = totais +
  media_percentual_online :: jsnum

text \<open>
  The four updates of one shift. \<^verbatim>\<open>turno.total_pontos_final || 0\<close> is the total itself,
  since a total that is 0 gives 0 either way.
\<close>

definition acumular :: "turno_final \<Rightarrow> acumulado \<Rightarrow> acumulado" where
  "acumular t e =
     e\<lparr> total_pontos := total_pontos e + total_pontos_final t,
        total_entregas := total_entregas e + corridas t,
        total_turnos := total_turnos e + 1,
        soma_percentual_online :=
          jadd (soma_percentual_online e) (or_zero (percentual_tempo_online (pontos t))) \<rparr>"

definition novo_acumulado :: "turno_final \<Rightarrow> acumulado" where
  "novo_acumulado t =
     \<lparr> id_da_pessoa_entregadora = id_da_pessoa_entregadora t,
       pessoa_entregadora = pessoa_entregadora t,
       total_pontos = 0,
       total_entregas = 0,
       total_turnos = 0,
       soma_percentual_online = Fin 0 \<rparr>"

text \<open>The body of the \<^verbatim>\<open>forEach\<close> of \<^verbatim>\<open>calcularRanking\<close>.\<close>

definition agregar :: "(string \<times> acumulado) list \<Rightarrow> turno_final \<Rightarrow> (string \<times> acumulado) list" where
  "agregar entregadores t =
     (let ident = id_da_pessoa_entregadora t
      in case map_of entregadores ident of
           Some e \<Rightarrow> map (\<lambda>(k, v). if k = ident then (k, acumular t v) else (k, v)) entregadores
         | None \<Rightarrow>
             if ident \<in> set object_prototype_keys then entregadores
             else entregadores @ [(ident, acumular t (novo_acumulado t))])"

text \<open>
  \<^verbatim>\<open>Object.values\<close>: the properties whose names are array indices (canonical numerals
  below \<open>2\<^sup>3\<^sup>2 - 1\<close>) come first, by ascending index, then the others as created.
\<close>

definition is_array_index :: "string \<Rightarrow> bool" where
  "is_array_index k =
     (k \<noteq> [] \<and> list_all is_digit k \<and> (k = ''0'' \<or> hd k \<noteq> CHR ''0'')
      \<and> digits_val k < 4294967295)"

definition object_values :: "(string \<times> 'a) list \<Rightarrow> 'a list" where
  "object_values props =
     map snd (sort_key (\<lambda>p. digits_val (fst p)) (filter (\<lambda>p. is_array_index (fst p)) props)
              @ filter (\<lambda>p. \<not> is_array_index (fst p)) props)"

definition linha :: "acumulado \<Rightarrow> linha_ranking" where
  "linha e =
     \<lparr> id_da_pessoa_entregadora = id_da_pessoa_entregadora e,
       pessoa_entregadora = pessoa_entregadora e,
       total_pontos = total_pontos e,
       total_entregas = total_entregas e,
       total_turnos = total_turnos e,
       media_percentual_online =
         toFixed2 (jdiv (soma_percentual_online e) (Fin (of_int (total_turnos e)))) \<rparr>"

text \<open>
  The comparator \<^verbatim>\<open>b.total_pontos - a.total_pontos\<close> is a consistent order on integer
  totals, and \<^verbatim>\<open>sort\<close> is stable: the result is the stable sort by descending total.
\<close>

definition calcularRanking :: "turno_final list \<Rightarrow> linha_ranking list" where
  "calcularRanking turnos =
     (let entregadores = foldl agregar [] turnos;
          ranking = map linha (object_values entregadores)
      in sort_key (\<lambda>e. - total_pontos e) ranking)"

section \<open>What the ranking is meant to hold\<close>

text \<open>
  The shifts of one worker, and the totals of a ranking row stated over them: the sum of
  the final totals, the sum of the completed deliveries (a missing count is 0) and the
  number of shifts.
\<close>

definition turnos_de :: "string \<Rightarrow> turno_final list \<Rightarrow> turno_final list" where
  "turnos_de w turnos = filter (\<lambda>t. id_da_pessoa_entregadora t = w) turnos"

definition totais_corretos :: "turno_final list \<Rightarrow> 'a totais_scheme \<Rightarrow> bool" where
  "totais_corretos turnos e =
     (total_pontos e
        = sum_list (map total_pontos_final (turnos_de (id_da_pessoa_entregadora e) turnos))
      \<and> total_entregas e
        = sum_list (map corridas (turnos_de (id_da_pessoa_entregadora e) turnos))
      \<and> total_turnos e = int (length (turnos_de (id_da_pessoa_entregadora e) turnos)))"

text \<open>
  The invariant of the loop of \<^verbatim>\<open>calcularRanking\<close>, after the shifts \<open>turnos\<close>: one row
  per identifier met that is not an inherited name, each with the totals of its worker.
\<close>

definition entregadores_ok :: "(string \<times> acumulado) list \<Rightarrow> turno_final list \<Rightarrow> bool" where
  "entregadores_ok entregadores turnos =
     (distinct (map fst entregadores)
      \<and> (\<forall>p \<in> set entregadores.
            id_da_pessoa_entregadora (snd p) = fst p
            \<and> fst p \<notin> set object_prototype_keys
            \<and> totais_corretos turnos (snd p))
      \<and> (\<forall>t \<in> set turnos.
            id_da_pessoa_entregadora t \<notin> set object_prototype_keys
            \<longrightarrow> id_da_pessoa_entregadora t \<in> fst ` set entregadores)
      \<and> fst ` set entregadores \<subseteq> id_da_pessoa_entregadora ` set turnos)"

section \<open>A host for the worked examples\<close>

text \<open>A host whose local time is UTC and which reads no text outside the ISO format.\<close>

definition env_utc :: js_env where
  "env_utc = \<lparr> localTZA = (\<lambda>_. 0), legacy_parse = (\<lambda>_. None) \<rparr>"

definition turno_exemplo :: "string \<Rightarrow> string \<Rightarrow> string \<Rightarrow> string \<Rightarrow> int \<Rightarrow> turno" where
  "turno_exemplo ident data duracao tempo n =
     \<lparr> id_da_pessoa_entregadora = ident,
       pessoa_entregadora = ''Entregador '' @ ident,
       data_do_periodo = data,
       duracao_do_periodo = String duracao,
       tempo_disponivel_absoluto = String tempo,
       numero_de_corridas_completadas = Some n \<rparr>"

definition final_exemplo :: "string \<Rightarrow> int option \<Rightarrow> int \<Rightarrow> turno_final" where
  "final_exemplo ident n pts =
     \<lparr> id_da_pessoa_entregadora = ident,
       pessoa_entregadora = ''Entregador '' @ ident,
       data_do_periodo = ''2024-12-25'',
       duracao_do_periodo = String ''08:00:00'',
       tempo_disponivel_absoluto = String ''07:30:00'',
       numero_de_corridas_completadas = n,
       pontos = \<lparr> percentual_tempo_online = Fin (375 / 4), pontos_entregas = 0,
                  bonus_90_online = 50, bonus_data_especial = 50, total_pontos_turno = pts \<rparr>,
       entregas_no_dia = 0,
       bonus_meta_diaria = 0,
       total_pontos_final = pts \<rparr>"

section \<open>Facts about Numbers\<close>

text \<open>
  A result between the two bounds is the Number itself. Seconds, percentages and sums of
  them, of size between \<open>1 / 10 ^ 15\<close> and \<open>10 ^ 15\<close>, are far inside the range; so are
  durations with up to 300 digits in each field.
\<close>

lemma number_value_between:
  assumes "\<bar>x\<bar> \<le> B" "B < overflow_bound" "x = 0 \<or> b \<le> \<bar>x\<bar>" "underflow_bound < b"
    and "0 \<le> underflow_bound"
  shows "number_value x = Fin x"
proof (cases "x = 0")
  case True
  then show ?thesis using assms(1,2,5) by (simp add: number_value_def)
next
  case False
  then have "b \<le> \<bar>x\<bar>" using assms(3) by simp
  then have "\<not> \<bar>x\<bar> \<le> underflow_bound" using assms(4) by linarith
  moreover have "\<not> overflow_bound \<le> x" "\<not> x \<le> - overflow_bound"
    using assms(1,2) by linarith+
  ultimately show ?thesis unfolding number_value_def by simp
qed

lemma bounds_small: "(10 :: rat) ^ 15 < overflow_bound" "underflow_bound < 1 / 10 ^ 15"
  by (simp_all add: overflow_bound_def underflow_bound_def)

lemma bounds_large:
  "3661 * (10 :: rat) ^ 300 + 1 < overflow_bound" "underflow_bound < 1 / 10 ^ 300"
  by (simp_all add: overflow_bound_def underflow_bound_def)

lemma underflow_bound_nonneg: "0 \<le> underflow_bound"
  by (simp add: underflow_bound_def)

lemma number_value_small:
  "\<bar>x\<bar> \<le> 10 ^ 15 \<Longrightarrow> x = 0 \<or> 1 / 10 ^ 15 \<le> \<bar>x\<bar> \<Longrightarrow> number_value x = Fin x"
  by (rule number_value_between [OF _ bounds_small(1) _ bounds_small(2) underflow_bound_nonneg])

lemma number_value_zero [simp]: "number_value 0 = Fin 0"
  using number_value_small [of 0] by simp

text \<open>For evaluation: a result of ordinary size is settled without computing the bounds.\<close>

lemma number_value_code [code]:
  "number_value x =
     (if \<bar>x\<bar> \<le> 10 ^ 15 \<and> (x = 0 \<or> 1 / 10 ^ 15 \<le> \<bar>x\<bar>) then Fin x
      else if overflow_bound \<le> x then PInf
      else if x \<le> - overflow_bound then NInf
      else if \<bar>x\<bar> \<le> underflow_bound then Fin 0
      else Fin x)"
  using number_value_small [of x] by (auto simp: number_value_def)

section \<open>Facts about the text functions\<close>

lemmas parse_defs = durationToSeconds_def parseInt_def parseFloat_def is_digit_def is_space_def
  digits_val_def digit_val_def exponent_part_def number_value_small

lemma is_digit_not_others:
  "is_digit c \<Longrightarrow> \<not> is_space c \<and> c \<noteq> CHR ''-'' \<and> c \<noteq> CHR ''+'' \<and> c \<noteq> CHR ''x'' \<and> c \<noteq> CHR ''X''
     \<and> c \<noteq> CHR ''I'' \<and> c \<noteq> CHR ''.'' \<and> c \<noteq> CHR '':''"
  by (auto simp: is_digit_def is_space_def)

lemma split_on_nonempty: "split_on c s \<noteq> []"
  by (induction s) (auto split: list.splits)

lemma split_on_last: "c \<notin> set a \<Longrightarrow> split_on c a = [a]"
  by (induction a) (auto split: list.splits)

lemma split_on_append: "c \<notin> set a \<Longrightarrow> split_on c (a @ c # rest) = a # split_on c rest"
  by (induction a) (auto split: list.splits simp: split_on_nonempty)

lemma split_on_three:
  "c \<notin> set p0 \<Longrightarrow> c \<notin> set p1 \<Longrightarrow> c \<notin> set p2 \<Longrightarrow>
     split_on c (p0 @ c # p1 @ c # p2) = [p0, p1, p2]"
  by (simp add: split_on_append split_on_last)

lemma digits_no_colon: "list_all is_digit ds \<Longrightarrow> CHR '':'' \<notin> set ds"
  by (auto simp: list_all_iff dest: is_digit_not_others)

lemma takeWhile_all: "list_all P xs \<Longrightarrow> takeWhile P xs = xs"
  by (induction xs) auto

lemma dropWhile_all: "list_all P xs \<Longrightarrow> dropWhile P xs = []"
  by (induction xs) auto

lemma parseInt_digits:
  assumes "ds \<noteq> []" "list_all is_digit ds"
  shows "parseInt ds = number_value (of_int (digits_val ds))"
proof -
  obtain d r where ds: "ds = d # r" using assms(1) by (cases ds) auto
  have d: "is_digit d" and r: "list_all is_digit r" using assms(2) ds by auto
  have nohex: "take 2 ds \<noteq> ''0x'' \<and> take 2 ds \<noteq> ''0X''"
  proof (cases r)
    case Nil then show ?thesis using ds by simp
  next
    case (Cons e r')
    then have "is_digit e" using r by simp
    then show ?thesis using ds Cons by (auto dest: is_digit_not_others)
  qed
  have sp: "dropWhile is_space ds = ds" using d ds by (auto dest: is_digit_not_others)
  have sg: "take_sign ds = (False, ds)" using d ds by (auto dest: is_digit_not_others)
  show ?thesis
    using nohex assms by (simp add: parseInt_def sp sg takeWhile_all)
qed


lemma takeWhile_Nil_dropWhile: "takeWhile P xs = [] \<Longrightarrow> dropWhile P xs = xs"
  by (cases xs) (auto split: if_splits)

lemma parseInt_no_numeral:
  assumes "takeWhile is_digit (snd (take_sign (dropWhile is_space f))) = []"
  shows "parseInt f = NaN"
proof -
  obtain neg s2 where ts: "take_sign (dropWhile is_space f) = (neg, s2)" by force
  have z: "takeWhile is_digit s2 = []" using assms ts by simp
  have z0: "is_digit CHR ''0''" by (simp add: is_digit_def)
  have nohex: "take 2 s2 \<noteq> ''0x'' \<and> take 2 s2 \<noteq> ''0X''"
  proof (cases s2)
    case Nil then show ?thesis by simp
  next
    case (Cons a r)
    then have "\<not> is_digit a" using z by (auto split: if_splits)
    then have "a \<noteq> CHR ''0''" using z0 by auto
    then show ?thesis using Cons by (cases r) auto
  qed
  show ?thesis using nohex z by (simp add: parseInt_def ts)
qed

lemma parseFloat_no_numeral:
  assumes "takeWhile is_digit (snd (take_sign (dropWhile is_space f))) = []"
    and "\<not> (take 1 (snd (take_sign (dropWhile is_space f))) = ''.''
            \<and> takeWhile is_digit (drop 1 (snd (take_sign (dropWhile is_space f)))) \<noteq> [])"
    and "take 8 (snd (take_sign (dropWhile is_space f))) \<noteq> ''Infinity''"
  shows "parseFloat f = NaN"
proof -
  obtain neg s2 where ts: "take_sign (dropWhile is_space f) = (neg, s2)" by force
  have ip: "takeWhile is_digit s2 = []" using assms(1) ts by simp
  then have r1: "dropWhile is_digit s2 = s2" by (rule takeWhile_Nil_dropWhile)
  have fp: "s2 \<noteq> [] \<and> hd s2 = CHR ''.'' \<longrightarrow> takeWhile is_digit (tl s2) = []"
    using assms(2) ts by (cases s2) auto
  have ni: "take 8 s2 \<noteq> ''Infinity''" using assms(3) ts by simp
  show ?thesis using ni fp by (simp add: parseFloat_def ts ip r1 Let_def)
qed

lemma parseFloat_digits:
  assumes "si \<noteq> []" "list_all is_digit si"
  shows "parseFloat si = number_value (of_int (digits_val si))"
proof -
  obtain d r where ds: "si = d # r" using assms(1) by (cases si) auto
  have d: "is_digit d" using assms(2) ds by auto
  have sp: "dropWhile is_space si = si" using d ds by (auto dest: is_digit_not_others)
  have sg: "take_sign si = (False, si)" using d ds by (auto dest: is_digit_not_others)
  have ni: "take 8 si \<noteq> ''Infinity''" using d ds by (auto dest: is_digit_not_others)
  show ?thesis
    using assms ni
    by (simp add: parseFloat_def sp sg takeWhile_all dropWhile_all exponent_part_def digits_val_def)
qed

lemma takeWhile_append_stop: "list_all P xs \<Longrightarrow> \<not> P y \<Longrightarrow> takeWhile P (xs @ y # ys) = xs"
  by (induction xs) auto

lemma dropWhile_append_stop: "list_all P xs \<Longrightarrow> \<not> P y \<Longrightarrow> dropWhile P (xs @ y # ys) = y # ys"
  by (induction xs) auto

lemma parseFloat_fraction:
  assumes "si \<noteq> []" "list_all is_digit si" "list_all is_digit sf"
  shows "parseFloat (si @ CHR ''.'' # sf)
         = number_value (of_int (digits_val si) + of_int (digits_val sf) / 10 ^ length sf)"
proof -
  let ?s = "si @ CHR ''.'' # sf"
  obtain d r where ds: "si = d # r" using assms(1) by (cases si) auto
  have d: "is_digit d" using assms(2) ds by auto
  have nd: "\<not> is_digit CHR ''.''" by (simp add: is_digit_def)
  have sp: "dropWhile is_space ?s = ?s" using d ds by (auto dest: is_digit_not_others)
  have sg: "take_sign ?s = (False, ?s)" using d ds by (auto dest: is_digit_not_others)
  have ni: "take 8 ?s \<noteq> ''Infinity''" using d ds by (auto dest: is_digit_not_others)
  have ip: "takeWhile is_digit ?s = si" using assms(2) nd by (rule takeWhile_append_stop)
  have r1: "dropWhile is_digit ?s = CHR ''.'' # sf" using assms(2) nd by (rule dropWhile_append_stop)
  show ?thesis
    using assms ni
    by (simp add: parseFloat_def sp sg ip r1 takeWhile_all dropWhile_all exponent_part_def)
qed

lemma durationToSeconds_fields:
  assumes "CHR '':'' \<notin> set p0" "CHR '':'' \<notin> set p1" "CHR '':'' \<notin> set p2"
  shows "durationToSeconds (String (p0 @ CHR '':'' # p1 @ CHR '':'' # p2))
         = jadd (jadd (jmul (or_zero (parseInt p0)) (Fin 3600)) (jmul (or_zero (parseInt p1)) (Fin 60)))
                (or_zero (parseFloat p2))"
  using assms by (simp add: durationToSeconds_def split_on_three)

section \<open>Facts about dates\<close>

text \<open>
  The day number of a valid calendar date gives the date back. The years of a 400-year era
  are split into centuries, groups of four years and single years to follow the divisions
  of \<^const>\<open>civil_from_days\<close>.
\<close>

lemma div_block:
  fixes k c r :: int
  assumes "0 \<le> r" "r < k"
  shows "(k * c + r) div k = c"
  using assms by (simp add: div_pos_pos_trivial)

lemma year_of_era:
  fixes yoe doy :: int
  assumes y: "0 \<le> yoe" "yoe < 400" and d: "0 \<le> doy" "doy \<le> 365"
    and leap: "doy = 365 \<longrightarrow> is_leap (yoe + 1)"
  defines "doe \<equiv> yoe * 365 + yoe div 4 - yoe div 100 + doy"
  shows "(doe - doe div 1460 + doe div 36524 - doe div 146096) div 365 = yoe"
    and "0 \<le> doe" and "doe < 146097"
proof -
  define c where "c = yoe div 100"
  define r where "r = yoe mod 100"
  define q where "q = r div 4"
  define s where "s = r mod 4"
  have yr: "yoe = 100 * c + r" by (simp add: c_def r_def)
  have rq: "r = 4 * q + s" by (simp add: q_def s_def)
  have yoe: "yoe = 100 * c + 4 * q + s" using yr rq by simp
  have rb: "0 \<le> r" "r < 100" by (simp_all add: r_def)
  have sb: "0 \<le> s" "s \<le> 3" using pos_mod_bound [of 4 r] by (simp_all add: s_def)
  have qb: "0 \<le> q" "q \<le> 24" using rb rq sb by linarith+
  have cb: "0 \<le> c" "c \<le> 3" using y yr rb by linarith+
  have "yoe = 4 * (25 * c + q) + s" using yoe by simp
  then have "yoe div 4 = (4 * (25 * c + q) + s) div 4" by simp
  also have "\<dots> = 25 * c + q" using sb by (intro div_block) simp_all
  finally have d4: "yoe div 4 = 25 * c + q" .
  have doe: "doe = 36524 * c + 1461 * q + 365 * s + doy"
    unfolding doe_def d4 c_def [symmetric] by (simp add: yoe)
  have lp: "s = 3 \<and> (q \<noteq> 24 \<or> c = 3)" if "doy = 365"
  proof -
    have l: "is_leap (yoe + 1)" using leap that by simp
    have e1: "yoe + 1 = 4 * (25 * c + q) + (s + 1)" using yoe by simp
    have "(yoe + 1) mod 4 = (s + 1) mod 4" unfolding e1 by (rule mod_mult_self4)
    then have "(s + 1) mod 4 = 0" using l by (simp add: is_leap_def)
    then have s3: "s = 3" using sb by presburger
    have "c = 3" if q24: "q = 24"
    proof -
      have e: "yoe + 1 = 100 * (c + 1)" using yoe q24 s3 by simp
      have "(yoe + 1) mod 100 = 0" unfolding e by simp
      then have "(yoe + 1) mod 400 = 0" using l by (simp add: is_leap_def)
      then have z: "(100 * (c + 1)) mod 400 = 0" unfolding e .
      show "c = 3"
      proof (rule ccontr)
        assume "c \<noteq> 3"
        then consider "c = 0" | "c = 1" | "c = 2" using cb by linarith
        then show False using z by cases simp_all
      qed
    qed
    then show ?thesis using s3 by blast
  qed
  show nonneg: "0 \<le> doe" unfolding doe using cb qb sb d by simp
  show upper: "doe < 146097" unfolding doe using cb qb sb d by simp
  show "(doe - doe div 1460 + doe div 36524 - doe div 146096) div 365 = yoe"
  proof (cases "doe = 146096")
    case True
    then have "c = 3" "q = 24" "s = 3"
      unfolding doe using cb qb sb d by linarith+
    then have "yoe = 399" using yoe by simp
    then show ?thesis using True by simp
  next
    case False
    then have lt: "doe < 146096" using upper by simp
    have e3: "doe div 146096 = 0" using nonneg lt by (simp add: div_pos_pos_trivial)
    define R where "R = 1461 * q + 365 * s + doy"
    have Rb: "0 \<le> R" "R < 36524"
    proof -
      show "0 \<le> R" unfolding R_def using qb sb d by simp
      show "R < 36524"
      proof (cases "doy = 365")
        case True
        then have "s = 3" "q \<noteq> 24 \<or> c = 3" using lp by auto
        moreover have "\<not> (q = 24 \<and> c = 3)"
          using False True \<open>s = 3\<close> unfolding doe by auto
        ultimately have "q \<le> 23" using qb by auto
        then show ?thesis unfolding R_def using True sb by simp
      next
        case False
        then have "doy \<le> 364" using d by simp
        then show ?thesis unfolding R_def using qb sb by simp
      qed
    qed
    have "doe = 36524 * c + R" unfolding doe R_def by simp
    then have e2: "doe div 36524 = c" using div_block [OF Rb, of c] by simp
    define T where "T = 24 * c + q + 365 * s + doy"
    define e where "e = T div 1460"
    have Tb: "0 \<le> T" "T < 2920" unfolding T_def using cb qb sb d by simp_all
    have eb: "e = (if 1460 \<le> T then 1 else 0)"
    proof (cases "1460 \<le> T")
      case True
      then have "0 \<le> T - 1460" "T - 1460 < 1460" using Tb by simp_all
      from div_block [OF this, of 1] have "T div 1460 = 1" by simp
      then show ?thesis using True by (simp add: e_def)
    next
      case False
      then have "T div 1460 = 0" using Tb by (simp add: div_pos_pos_trivial)
      then show ?thesis using False by (simp add: e_def)
    qed
    have "doe = 1460 * (25 * c + q) + T" unfolding doe T_def by simp
    then have "doe div 1460 = (1460 * (25 * c + q) + T) div 1460" by simp
    also have "\<dots> = 25 * c + q + T div 1460" by simp
    finally have e1: "doe div 1460 = 25 * c + q + e" unfolding e_def .
    have g: "doe - doe div 1460 + doe div 36524 - doe div 146096 = 365 * yoe + (doy - e)"
      unfolding e1 e2 e3 unfolding doe yoe by simp
    have lo: "0 \<le> doy - e"
    proof (cases "1460 \<le> T")
      case True
      then have "269 \<le> doy" unfolding T_def using cb qb sb by simp
      then show ?thesis using eb by simp
    next
      case False
      then show ?thesis using eb d by simp
    qed
    have hi: "doy - e < 365"
    proof (cases "doy = 365")
      case True
      then have "s = 3" using lp by simp
      then have "1460 \<le> T" unfolding T_def using True cb qb by simp
      then show ?thesis using eb True by simp
    next
      case False
      then have "doy \<le> 364" using d by simp
      then show ?thesis using eb by simp
    qed
    show ?thesis
      unfolding g using div_block [OF lo hi, of yoe] by simp
  qed
qed


lemma div_between:
  fixes k c x :: int
  assumes "k * c \<le> x" "x < k * c + k"
  shows "x div k = c"
proof -
  have "0 \<le> x - k * c" "x - k * c < k" using assms by simp_all
  from div_block [OF this, of c] show ?thesis by simp
qed

lemma mp_cases:
  fixes mp :: int
  assumes "0 \<le> mp" "mp \<le> 11"
  obtains "mp = 0" | "mp = 1" | "mp = 2" | "mp = 3" | "mp = 4" | "mp = 5" | "mp = 6"
    | "mp = 7" | "mp = 8" | "mp = 9" | "mp = 10" | "mp = 11"
proof -
  have "mp = 0 \<or> mp = 1 \<or> mp = 2 \<or> mp = 3 \<or> mp = 4 \<or> mp = 5 \<or> mp = 6
    \<or> mp = 7 \<or> mp = 8 \<or> mp = 9 \<or> mp = 10 \<or> mp = 11"
    using assms by presburger
  then show ?thesis using that by blast
qed

lemma month_of_doy:
  fixes mp d :: int
  assumes "0 \<le> mp" "mp \<le> 11" "1 \<le> d" "d \<le> 31"
    and "mp = 1 \<or> mp = 3 \<or> mp = 6 \<or> mp = 8 \<longrightarrow> d \<le> 30"
    and "mp = 11 \<longrightarrow> d \<le> 29"
  shows "(5 * ((153 * mp + 2) div 5 + d - 1) + 2) div 153 = mp"
proof -
  from assms(1,2) show ?thesis
  proof (cases rule: mp_cases)
    case 1 then show ?thesis using assms by (intro div_between) simp_all
  next
    case 2 then show ?thesis using assms by (intro div_between) simp_all
  next
    case 3 then show ?thesis using assms by (intro div_between) simp_all
  next
    case 4 then show ?thesis using assms by (intro div_between) simp_all
  next
    case 5 then show ?thesis using assms by (intro div_between) simp_all
  next
    case 6 then show ?thesis using assms by (intro div_between) simp_all
  next
    case 7 then show ?thesis using assms by (intro div_between) simp_all
  next
    case 8 then show ?thesis using assms by (intro div_between) simp_all
  next
    case 9 then show ?thesis using assms by (intro div_between) simp_all
  next
    case 10 then show ?thesis using assms by (intro div_between) simp_all
  next
    case 11 then show ?thesis using assms by (intro div_between) simp_all
  next
    case 12 then show ?thesis using assms by (intro div_between) simp_all
  qed
qed

lemma doy_bounds:
  fixes mp d :: int
  assumes "0 \<le> mp" "mp \<le> 11" "1 \<le> d" "d \<le> 31"
    and "mp = 1 \<or> mp = 3 \<or> mp = 6 \<or> mp = 8 \<longrightarrow> d \<le> 30"
    and "mp = 11 \<longrightarrow> d \<le> 29"
  shows "0 \<le> (153 * mp + 2) div 5 + d - 1"
    and "(153 * mp + 2) div 5 + d - 1 \<le> 365"
    and "(153 * mp + 2) div 5 + d - 1 = 365 \<longrightarrow> mp = 11 \<and> d = 29"
proof -
  from assms(1,2)
  have "0 \<le> (153 * mp + 2) div 5 + d - 1 \<and> (153 * mp + 2) div 5 + d - 1 \<le> 365
     \<and> ((153 * mp + 2) div 5 + d - 1 = 365 \<longrightarrow> mp = 11 \<and> d = 29)"
    using assms(3-) by (cases rule: mp_cases) simp_all
  then show "0 \<le> (153 * mp + 2) div 5 + d - 1"
    and "(153 * mp + 2) div 5 + d - 1 \<le> 365"
    and "(153 * mp + 2) div 5 + d - 1 = 365 \<longrightarrow> mp = 11 \<and> d = 29"
    by blast+
qed

lemma is_leap_shift: "is_leap (400 * e + z) = is_leap z"
proof -
  have "(400 * e + z) mod 4 = z mod 4"
    using mod_mult_self4 [of 4 "100 * e" z] by simp
  moreover have "(400 * e + z) mod 100 = z mod 100"
    using mod_mult_self4 [of 100 "4 * e" z] by simp
  moreover have "(400 * e + z) mod 400 = z mod 400"
    by (rule mod_mult_self4)
  ultimately show ?thesis by (simp add: is_leap_def)
qed

lemma civil_roundtrip:
  assumes m: "1 \<le> m" "m \<le> 12" and d: "1 \<le> d" "d \<le> days_in_month y m"
  shows "civil_from_days (days_from_civil y m d) = (y, m, d)"
proof -
  define y' where "y' = (if m \<le> 2 then y - 1 else y)"
  define era where "era = y' div 400"
  define yoe where "yoe = y' - era * 400"
  define mp where "mp = (if 2 < m then m - 3 else m + 9)"
  define doy where "doy = (153 * mp + 2) div 5 + d - 1"
  define doe where "doe = yoe * 365 + yoe div 4 - yoe div 100 + doy"
  have days: "days_from_civil y m d = era * 146097 + doe - 719468"
    by (simp add: days_from_civil_def Let_def y'_def era_def yoe_def mp_def doy_def doe_def)
  have yoe_mod: "yoe = y' mod 400"
    unfolding yoe_def era_def using div_mult_mod_eq [of y' 400] by linarith
  have yb: "0 \<le> yoe" "yoe < 400" unfolding yoe_mod by simp_all
  have y'_eq: "y' = 400 * era + yoe" unfolding yoe_def by simp
  have mpb: "0 \<le> mp" "mp \<le> 11" unfolding mp_def using m by auto
  have m_of_mp: "m = (if mp < 10 then mp + 3 else mp - 9)" unfolding mp_def using m by auto
  have d31: "d \<le> 31" using d(2) by (simp add: days_in_month_def split: if_splits)
  have d30: "mp = 1 \<or> mp = 3 \<or> mp = 6 \<or> mp = 8 \<longrightarrow> d \<le> 30"
    using d(2) m unfolding mp_def by (auto simp: days_in_month_def split: if_splits)
  have feb: "mp = 11 \<longrightarrow> m = 2" unfolding mp_def using m by auto
  have d29: "mp = 11 \<longrightarrow> d \<le> 29"
    using d(2) feb by (auto simp: days_in_month_def split: if_splits)
  note b = doy_bounds [OF mpb d(1) d31 d30 d29, folded doy_def]
  have leap: "doy = 365 \<longrightarrow> is_leap (yoe + 1)"
  proof
    assume "doy = 365"
    then have "mp = 11" "d = 29" using b(3) by simp_all
    then have m2: "m = 2" using feb by simp
    then have "is_leap y" using d(2) \<open>d = 29\<close> by (simp add: days_in_month_def split: if_splits)
    moreover have "y = 400 * era + (yoe + 1)" using y'_eq m2 by (simp add: y'_def)
    ultimately show "is_leap (yoe + 1)" using is_leap_shift [of era "yoe + 1"] by simp
  qed
  note ye = year_of_era [OF yb b(1) b(2) leap, folded doe_def]
  have z: "days_from_civil y m d + 719468 = 146097 * era + doe" using days by simp
  have era': "(days_from_civil y m d + 719468) div 146097 = era"
    unfolding z using ye(2) ye(3) by (rule div_block)
  have doe': "days_from_civil y m d + 719468 - era * 146097 = doe" using z by simp
  have doy': "doe - (365 * yoe + yoe div 4 - yoe div 100) = doy" unfolding doe_def by simp
  have mp': "(5 * doy + 2) div 153 = mp"
    unfolding doy_def by (rule month_of_doy [OF mpb d(1) d31 d30 d29])
  have d': "doy - (153 * mp + 2) div 5 + 1 = d" unfolding doy_def by simp
  have yr: "(if m \<le> 2 then yoe + era * 400 + 1 else yoe + era * 400) = y"
    using y'_eq by (simp add: y'_def split: if_splits)
  show ?thesis
    unfolding civil_from_days_def Let_def era' doe' ye(1) doy' mp' d' m_of_mp [symmetric]
    using yr by simp
qed

lemma civil_days_bounds:
  assumes m: "1 \<le> m" "m \<le> 12" and d: "1 \<le> d" "d \<le> days_in_month y m"
    and y: "0 \<le> y" "y \<le> 9999"
  shows "- 1000000 \<le> days_from_civil y m d" and "days_from_civil y m d \<le> 3000000"
proof -
  define y' where "y' = (if m \<le> 2 then y - 1 else y)"
  define era where "era = y' div 400"
  define yoe where "yoe = y' - era * 400"
  define mp where "mp = (if 2 < m then m - 3 else m + 9)"
  define doy where "doy = (153 * mp + 2) div 5 + d - 1"
  define doe where "doe = yoe * 365 + yoe div 4 - yoe div 100 + doy"
  have days: "days_from_civil y m d = era * 146097 + doe - 719468"
    by (simp add: days_from_civil_def Let_def y'_def era_def yoe_def mp_def doy_def doe_def)
  have yoe_mod: "yoe = y' mod 400"
    unfolding yoe_def era_def using div_mult_mod_eq [of y' 400] by linarith
  have yb: "0 \<le> yoe" "yoe < 400" unfolding yoe_mod by simp_all
  have mpb: "0 \<le> mp" "mp \<le> 11" unfolding mp_def using m by auto
  have d31: "d \<le> 31" using d(2) by (simp add: days_in_month_def split: if_splits)
  have d30: "mp = 1 \<or> mp = 3 \<or> mp = 6 \<or> mp = 8 \<longrightarrow> d \<le> 30"
    using d(2) m unfolding mp_def by (auto simp: days_in_month_def split: if_splits)
  have feb: "mp = 11 \<longrightarrow> m = 2" unfolding mp_def using m by auto
  have d29: "mp = 11 \<longrightarrow> d \<le> 29"
    using d(2) feb by (auto simp: days_in_month_def split: if_splits)
  note b = doy_bounds [OF mpb d(1) d31 d30 d29, folded doy_def]
  have "yoe div 4 \<le> 99" "0 \<le> yoe div 100" using yb by simp_all
  then have doe_hi: "doe \<le> 146099" unfolding doe_def using yb b(2) by linarith
  have "0 \<le> yoe div 4" "yoe div 100 \<le> 3" using yb by simp_all
  then have doe_lo: "- 3 \<le> doe" unfolding doe_def using yb b(1) by linarith
  have y'b: "- 1 \<le> y'" "y' \<le> 9999" unfolding y'_def using y by auto
  have "(- 1) div 400 \<le> y' div 400" using y'b(1) by (intro zdiv_mono1) simp_all
  then have era_lo: "- 1 \<le> era" unfolding era_def by simp
  have "y' div 400 \<le> 9999 div 400" using y'b(2) by (intro zdiv_mono1) simp_all
  then have era_hi: "era \<le> 24" unfolding era_def by simp
  show "- 1000000 \<le> days_from_civil y m d"
    unfolding days using doe_lo era_lo by linarith
  show "days_from_civil y m d \<le> 3000000"
    unfolding days using doe_hi era_hi by linarith
qed

lemma digit_val_range: "is_digit c \<Longrightarrow> 0 \<le> digit_val c \<and> digit_val c \<le> 9"
  by (simp add: is_digit_def digit_val_def)

lemma digits_val_snoc: "digits_val (ds @ [c]) = 10 * digits_val ds + digit_val c"
  by (simp add: digits_val_def)

lemma digits_val_range:
  "list_all is_digit ds \<Longrightarrow> 0 \<le> digits_val ds \<and> digits_val ds < 10 ^ length ds"
proof (induction ds rule: rev_induct)
  case Nil
  show ?case by (simp add: digits_val_def)
next
  case (snoc c ds)
  then have "0 \<le> digits_val ds" "digits_val ds + 1 \<le> 10 ^ length ds" by simp_all
  moreover have "0 \<le> digit_val c" "digit_val c \<le> 9"
    using snoc.prems digit_val_range [of c] by simp_all
  ultimately show ?case by (simp add: digits_val_snoc)
qed

lemma read_digits_append:
  "length ds = n \<Longrightarrow> list_all is_digit ds \<Longrightarrow> read_digits n (ds @ rest) = Some (digits_val ds, rest)"
  by (simp add: read_digits_def)

text \<open>
  A date-only text \<^verbatim>\<open>YYYY-MM-DD\<close> of a valid date is read as UTC midnight of that day,
  under every host: the UTC getters give back the day and the month of the text.
\<close>

lemma date_only_text:
  assumes len: "length yy = 4" "length mm = 2" "length dd = 2"
    and dig: "list_all is_digit yy" "list_all is_digit mm" "list_all is_digit dd"
    and m: "1 \<le> digits_val mm" "digits_val mm \<le> 12"
    and d: "1 \<le> digits_val dd" "digits_val dd \<le> days_in_month (digits_val yy) (digits_val mm)"
  shows "newDate env (yy @ CHR ''-'' # mm @ CHR ''-'' # dd)
           = Some (days_from_civil (digits_val yy) (digits_val mm) (digits_val dd) * msPerDay)"
    and "getUTCDate (newDate env (yy @ CHR ''-'' # mm @ CHR ''-'' # dd)) = Some (digits_val dd)"
    and "getUTCMonth (newDate env (yy @ CHR ''-'' # mm @ CHR ''-'' # dd)) = Some (digits_val mm - 1)"
proof -
  let ?y = "digits_val yy" and ?m = "digits_val mm" and ?d = "digits_val dd"
  let ?days = "days_from_civil ?y ?m ?d"
  let ?t = "yy @ CHR ''-'' # mm @ CHR ''-'' # dd"
  obtain c cs where yy: "yy = c # cs" using len(1) by (cases yy) auto
  then have c: "is_digit c" using dig(1) by simp
  have nosign: "c \<noteq> CHR ''+''" "c \<noteq> CHR ''-''" using c by (auto simp: is_digit_def)
  have "parse_iso_year ?t = read_digits 4 ?t"
    using nosign by (simp add: parse_iso_year_def yy)
  then have year: "parse_iso_year ?t = Some (?y, CHR ''-'' # mm @ CHR ''-'' # dd)"
    using read_digits_append [OF len(1) dig(1)] by simp
  have r2: "read_digits 2 (mm @ CHR ''-'' # dd) = Some (?m, CHR ''-'' # dd)"
    using len(2) dig(2) by (rule read_digits_append)
  have r3: "read_digits 2 dd = Some (?d, [])"
    using read_digits_append [OF len(3) dig(3), of "[]"] by simp
  have date: "parse_iso_date ?t = Some ((?y, ?m, ?d), [])"
    using m d by (simp add: parse_iso_date_def year r2 r3)
  have iso: "parse_iso env ?t = Some (?days * msPerDay)"
    by (simp add: parse_iso_def date)
  have "0 \<le> ?y" "?y < 10 ^ 4" using digits_val_range [OF dig(1)] len(1) by simp_all
  then have yb: "0 \<le> ?y" "?y \<le> 9999" by simp_all
  note b = civil_days_bounds [OF m d yb]
  have "\<bar>?days * msPerDay\<bar> \<le> 8640000000000000"
    using b by (simp add: msPerDay_def abs_le_iff)
  then show new: "newDate env ?t = Some (?days * msPerDay)"
    by (simp add: newDate_def iso timeClip_def)
  have "(?days * msPerDay) div msPerDay = ?days" by (simp add: msPerDay_def)
  then show "getUTCDate (newDate env ?t) = Some ?d"
    and "getUTCMonth (newDate env ?t) = Some (?m - 1)"
    unfolding new using civil_roundtrip [OF m d]
    by (simp_all add: getUTCDate_def getUTCMonth_def)
qed

lemma date_only_text_especial:
  assumes "length yy = 4" "length mm = 2" "length dd = 2"
    and "list_all is_digit yy" "list_all is_digit mm" "list_all is_digit dd"
    and "1 \<le> digits_val mm" "digits_val mm \<le> 12"
    and "1 \<le> digits_val dd" "digits_val dd \<le> days_in_month (digits_val yy) (digits_val mm)"
  shows "isDataEspecial (newDate env (yy @ CHR ''-'' # mm @ CHR ''-'' # dd))
         = ((digits_val dd = 24 \<and> digits_val mm = 12) \<or> (digits_val dd = 25 \<and> digits_val mm = 12)
            \<or> (digits_val dd = 31 \<and> digits_val mm = 12) \<or> (digits_val dd = 1 \<and> digits_val mm = 1))"
  unfolding isDataEspecial_def Let_def date_only_text(2,3) [OF assms]
  by auto

section \<open>One shift: percentage and bonuses\<close>

text \<open>
  Claim C2. The special-date bonus of a scored shift is 50 exactly when the online
  percentage is at least 90, which is when the online bonus is 50, and
  \<^verbatim>\<open>isDataEspecial\<close> holds of \<^verbatim>\<open>new Date(turno.data_do_periodo)\<close>: the UTC day and month
  of that instant are 24 December, 25 December, 31 December or 1 January, the year playing
  no part; otherwise the bonus is 0. For a shift whose date is a date-only text
  \<^verbatim>\<open>YYYY-MM-DD\<close> this is the rule of the claim on the day and the month written in the
  text: a shift of 25 December with 93.75 per cent online gets 50, the same shift with
  50 per cent online gets 0, and a shift of 26 December gets 0. For a date-time with a zone
  offset the rule fails: \<^verbatim>\<open>2024-12-23T22:00:00-03:00\<close> is a shift of 23 December, the
  day under which the grouping files it, but its instant is 01:00 UTC of 24 December and
  the shift gets the special-date bonus.
\<close>

theorem bonus_data_especial_rule:
  "bonus_data_especial (calcularPontosTurno env t)
     = (if jge (calcularPercentualOnline (tempo_disponivel_absoluto t) (duracao_do_periodo t)) (Fin 90)
           \<and> isDataEspecial (newDate env (data_do_periodo t))
        then 50 else 0)
   \<and> (bonus_90_online (calcularPontosTurno env t) = 50)
     = jge (calcularPercentualOnline (tempo_disponivel_absoluto t) (duracao_do_periodo t)) (Fin 90)
   \<and> isDataEspecial dt
     = (\<exists>tv y m d. dt = Some tv \<and> civil_from_days (tv div msPerDay) = (y, m, d)
          \<and> ((d = 24 \<and> m = 12) \<or> (d = 25 \<and> m = 12) \<or> (d = 31 \<and> m = 12)
               \<or> (d = 1 \<and> m = 1)))
   \<and> (length yy = 4 \<and> length mm = 2 \<and> length dd = 2
        \<and> list_all is_digit yy \<and> list_all is_digit mm \<and> list_all is_digit dd
        \<and> 1 \<le> digits_val mm \<and> digits_val mm \<le> 12
        \<and> 1 \<le> digits_val dd \<and> digits_val dd \<le> days_in_month (digits_val yy) (digits_val mm)
        \<and> data_do_periodo t = yy @ ''-'' @ mm @ ''-'' @ dd
        \<longrightarrow> (bonus_data_especial (calcularPontosTurno env t) = 50)
            = (bonus_90_online (calcularPontosTurno env t) = 50
               \<and> ((digits_val dd = 24 \<and> digits_val mm = 12) \<or> (digits_val dd = 25 \<and> digits_val mm = 12)
                    \<or> (digits_val dd = 31 \<and> digits_val mm = 12)
                    \<or> (digits_val dd = 1 \<and> digits_val mm = 1))))
   \<and> bonus_data_especial (calcularPontosTurno env
        (t\<lparr> data_do_periodo := ''2024-12-25'',
            tempo_disponivel_absoluto := String ''07:30:00'',
            duracao_do_periodo := String ''08:00:00'' \<rparr>)) = 50
   \<and> bonus_data_especial (calcularPontosTurno env
        (t\<lparr> data_do_periodo := ''2024-12-25'',
            tempo_disponivel_absoluto := String ''04:00:00'',
            duracao_do_periodo := String ''08:00:00'' \<rparr>)) = 0
   \<and> bonus_data_especial (calcularPontosTurno env
        (t\<lparr> data_do_periodo := ''2024-12-26'',
            tempo_disponivel_absoluto := String ''07:30:00'',
            duracao_do_periodo := String ''08:00:00'' \<rparr>)) = 0
   \<and> dia (t\<lparr> data_do_periodo := ''2024-12-23T22:00:00-03:00'' \<rparr>) = ''2024-12-23''
   \<and> \<not> isDataEspecial (newDate env ''2024-12-23'')
   \<and> bonus_data_especial (calcularPontosTurno env
        (t\<lparr> data_do_periodo := ''2024-12-23T22:00:00-03:00'',
            tempo_disponivel_absoluto := String ''07:30:00'',
            duracao_do_periodo := String ''08:00:00'' \<rparr>)) = 50"
proof -
  have a: "bonus_data_especial (calcularPontosTurno env t)
     = (if jge (calcularPercentualOnline (tempo_disponivel_absoluto t) (duracao_do_periodo t)) (Fin 90)
           \<and> isDataEspecial (newDate env (data_do_periodo t))
        then 50 else 0)" for t :: "'a turno_scheme"
    by (simp add: calcularPontosTurno_def Let_def)
  have b: "(bonus_90_online (calcularPontosTurno env t) = 50)
     = jge (calcularPercentualOnline (tempo_disponivel_absoluto t) (duracao_do_periodo t)) (Fin 90)"
    by (simp add: calcularPontosTurno_def Let_def)
  have c: "isDataEspecial dt
     = (\<exists>tv y m d. dt = Some tv \<and> civil_from_days (tv div msPerDay) = (y, m, d)
          \<and> ((d = 24 \<and> m = 12) \<or> (d = 25 \<and> m = 12) \<or> (d = 31 \<and> m = 12)
               \<or> (d = 1 \<and> m = 1)))"
  proof (cases dt)
    case None
    then show ?thesis by (simp add: isDataEspecial_def getUTCDate_def getUTCMonth_def)
  next
    case (Some tv)
    obtain y m d where c: "civil_from_days (tv div msPerDay) = (y, m, d)"
      by (cases "civil_from_days (tv div msPerDay)") auto
    show ?thesis
      using Some c by (auto simp: isDataEspecial_def getUTCDate_def getUTCMonth_def Let_def)
  qed
  have d: "(bonus_data_especial (calcularPontosTurno env t) = 50)
            = (bonus_90_online (calcularPontosTurno env t) = 50
               \<and> ((digits_val dd = 24 \<and> digits_val mm = 12) \<or> (digits_val dd = 25 \<and> digits_val mm = 12)
                    \<or> (digits_val dd = 31 \<and> digits_val mm = 12)
                    \<or> (digits_val dd = 1 \<and> digits_val mm = 1)))"
    if h: "length yy = 4 \<and> length mm = 2 \<and> length dd = 2
        \<and> list_all is_digit yy \<and> list_all is_digit mm \<and> list_all is_digit dd
        \<and> 1 \<le> digits_val mm \<and> digits_val mm \<le> 12
        \<and> 1 \<le> digits_val dd \<and> digits_val dd \<le> days_in_month (digits_val yy) (digits_val mm)
        \<and> data_do_periodo t = yy @ ''-'' @ mm @ ''-'' @ dd"
  proof -
    have e: "isDataEspecial (newDate env (data_do_periodo t))
         = ((digits_val dd = 24 \<and> digits_val mm = 12) \<or> (digits_val dd = 25 \<and> digits_val mm = 12)
            \<or> (digits_val dd = 31 \<and> digits_val mm = 12) \<or> (digits_val dd = 1 \<and> digits_val mm = 1))"
      using date_only_text_especial [of yy mm dd env] h by simp
    show ?thesis unfolding a b e by simp
  qed
  have p: "calcularPercentualOnline (String ''07:30:00'') (String ''08:00:00'') = Fin (375 / 4)"
    "calcularPercentualOnline (String ''04:00:00'') (String ''08:00:00'') = Fin 50"
    by (simp_all add: calcularPercentualOnline_def parse_defs)
  have s: "isDataEspecial (newDate env ''2024-12-25'')"
    "\<not> isDataEspecial (newDate env ''2024-12-26'')"
    "\<not> isDataEspecial (newDate env ''2024-12-23'')"
    by code_simp+
  have n: "newDate env ''2024-12-23T22:00:00-03:00'' = Some 1735002000000"
    by code_simp
  have g: "isDataEspecial (Some 1735002000000)"
    by code_simp
  have e1: "bonus_data_especial (calcularPontosTurno env
        (t\<lparr> data_do_periodo := ''2024-12-25'',
            tempo_disponivel_absoluto := String ''07:30:00'',
            duracao_do_periodo := String ''08:00:00'' \<rparr>)) = 50"
    unfolding a by (simp add: p s)
  have e2: "bonus_data_especial (calcularPontosTurno env
        (t\<lparr> data_do_periodo := ''2024-12-25'',
            tempo_disponivel_absoluto := String ''04:00:00'',
            duracao_do_periodo := String ''08:00:00'' \<rparr>)) = 0"
    unfolding a by (simp add: p s)
  have e3: "bonus_data_especial (calcularPontosTurno env
        (t\<lparr> data_do_periodo := ''2024-12-26'',
            tempo_disponivel_absoluto := String ''07:30:00'',
            duracao_do_periodo := String ''08:00:00'' \<rparr>)) = 0"
    unfolding a by (simp add: p s)
  have e4: "dia (t\<lparr> data_do_periodo := ''2024-12-23T22:00:00-03:00'' \<rparr>) = ''2024-12-23''"
    by (simp add: dia_def)
  have e5: "bonus_data_especial (calcularPontosTurno env
        (t\<lparr> data_do_periodo := ''2024-12-23T22:00:00-03:00'',
            tempo_disponivel_absoluto := String ''07:30:00'',
            duracao_do_periodo := String ''08:00:00'' \<rparr>)) = 50"
    unfolding a by (simp add: p n g)
  show ?thesis
    using a [of t] b c d e1 e2 e3 e4 s(3) e5 by blast
qed

theorem bonus_data_especial_rule_witness:
  "bonus_90_online (calcularPontosTurno env_utc
        (turno_exemplo ''e1'' ''2024-12-25'' ''08:00:00'' ''07:30:00'' 25)) = 50
   \<and> bonus_data_especial (calcularPontosTurno env_utc
        (turno_exemplo ''e1'' ''2024-12-25'' ''08:00:00'' ''07:30:00'' 25)) = 50
   \<and> bonus_data_especial (calcularPontosTurno env_utc
        (turno_exemplo ''e1'' ''2024-12-25'' ''08:00:00'' ''04:00:00'' 25)) = 0"
proof -
  define t where "t = turno_exemplo ''e1'' ''2024-12-25'' ''08:00:00'' ''07:30:00'' 25"
  define u where "u = turno_exemplo ''e1'' ''2024-12-25'' ''08:00:00'' ''04:00:00'' 25"
  note rule = bonus_data_especial_rule [of env_utc t None "''2024''" "''12''" "''25''"]
  note rule' = bonus_data_especial_rule [of env_utc u None "''2024''" "''12''" "''25''"]
  have p: "jge (calcularPercentualOnline (tempo_disponivel_absoluto t) (duracao_do_periodo t)) (Fin 90)"
    by (simp add: t_def turno_exemplo_def calcularPercentualOnline_def parse_defs)
  have q: "\<not> jge (calcularPercentualOnline (tempo_disponivel_absoluto u) (duracao_do_periodo u)) (Fin 90)"
    by (simp add: u_def turno_exemplo_def calcularPercentualOnline_def parse_defs)
  have val: "digits_val ''2024'' = 2024" "digits_val ''12'' = 12" "digits_val ''25'' = 25"
    by (simp_all add: digits_val_def digit_val_def)
  have hyp: "length ''2024'' = 4 \<and> length ''12'' = 2 \<and> length ''25'' = 2
        \<and> list_all is_digit ''2024'' \<and> list_all is_digit ''12'' \<and> list_all is_digit ''25''
        \<and> 1 \<le> digits_val ''12'' \<and> digits_val ''12'' \<le> 12
        \<and> 1 \<le> digits_val ''25''
        \<and> digits_val ''25'' \<le> days_in_month (digits_val ''2024'') (digits_val ''12'')
        \<and> data_do_periodo t = ''2024'' @ ''-'' @ ''12'' @ ''-'' @ ''25''"
    by (simp add: val is_digit_def days_in_month_def t_def turno_exemplo_def)
  have hyp': "length ''2024'' = 4 \<and> length ''12'' = 2 \<and> length ''25'' = 2
        \<and> list_all is_digit ''2024'' \<and> list_all is_digit ''12'' \<and> list_all is_digit ''25''
        \<and> 1 \<le> digits_val ''12'' \<and> digits_val ''12'' \<le> 12
        \<and> 1 \<le> digits_val ''25''
        \<and> digits_val ''25'' \<le> days_in_month (digits_val ''2024'') (digits_val ''12'')
        \<and> data_do_periodo u = ''2024'' @ ''-'' @ ''12'' @ ''-'' @ ''25''"
    by (simp add: val is_digit_def days_in_month_def u_def turno_exemplo_def)
  from rule [THEN conjunct2, THEN conjunct1] p
  have b90: "bonus_90_online (calcularPontosTurno env_utc t) = 50" by simp
  from rule [THEN conjunct2, THEN conjunct2, THEN conjunct2, THEN conjunct1, rule_format, OF hyp] b90
  have bde: "bonus_data_especial (calcularPontosTurno env_utc t) = 50"
    by (simp add: val)
  from rule' [THEN conjunct2, THEN conjunct1] q
  have b90': "bonus_90_online (calcularPontosTurno env_utc u) \<noteq> 50" by simp
  from rule' [THEN conjunct2, THEN conjunct2, THEN conjunct2, THEN conjunct1, rule_format, OF hyp'] b90'
  have n50: "bonus_data_especial (calcularPontosTurno env_utc u) \<noteq> 50"
    by simp
  from rule' [THEN conjunct1] n50
  have bde': "bonus_data_especial (calcularPontosTurno env_utc u) = 0"
    by (simp split: if_splits)
  show ?thesis
    using b90 bde bde' unfolding t_def u_def by (intro conjI)
qed

text \<open>
  The four days in several years, read from date-only texts, and two ordinary days.
\<close>

lemma isDataEspecial_examples:
  "isDataEspecial (newDate env ''2024-12-24'')"
  "isDataEspecial (newDate env ''2023-12-25'')"
  "isDataEspecial (newDate env ''1999-12-31'')"
  "isDataEspecial (newDate env ''2031-01-01'')"
  "\<not> isDataEspecial (newDate env ''2024-12-26'')"
  "\<not> isDataEspecial (newDate env ''2024-01-02'')"
  by code_simp+

text \<open>
  Claim C3. The online bonus of a shift is 50 exactly when the computed online percentage
  is at least 90, and 0 otherwise. The threshold is inclusive: 54 minutes online of a
  one-hour shift are exactly 90 per cent and earn the bonus; 53 minutes 59.964 seconds
  are 89.999 per cent and do not.
\<close>

theorem bonus_90_online_threshold:
  "bonus_90_online (calcularPontosTurno env t)
     = (if jge (calcularPercentualOnline (tempo_disponivel_absoluto t) (duracao_do_periodo t)) (Fin 90)
        then 50 else 0)
   \<and> jge (Fin p) (Fin 90) = (90 \<le> p)
   \<and> calcularPercentualOnline (String ''00:54:00'') (String ''01:00:00'') = Fin 90
   \<and> bonus_90_online (calcularPontosTurno env
        (t\<lparr> tempo_disponivel_absoluto := String ''00:54:00'',
            duracao_do_periodo := String ''01:00:00'' \<rparr>)) = 50
   \<and> calcularPercentualOnline (String ''00:53:59.964'') (String ''01:00:00'') = Fin (89999 / 1000)
   \<and> bonus_90_online (calcularPontosTurno env
        (t\<lparr> tempo_disponivel_absoluto := String ''00:53:59.964'',
            duracao_do_periodo := String ''01:00:00'' \<rparr>)) = 0"
proof -
  have a: "calcularPercentualOnline (String ''00:54:00'') (String ''01:00:00'') = Fin 90"
    by (simp add: calcularPercentualOnline_def parse_defs)
  have b: "calcularPercentualOnline (String ''00:53:59.964'') (String ''01:00:00'') = Fin (89999 / 1000)"
    by (simp add: calcularPercentualOnline_def parse_defs)
  show ?thesis
    by (simp add: calcularPontosTurno_def a b Let_def)
qed

text \<open>
  Claim C4, at a date-time with a zone offset. For a date-only text the check sees the day
  and the month of the text (\<open>date_only_text\<close> above). The text
  \<^verbatim>\<open>2024-12-25T23:00:00-03:00\<close> has the calendar date 25 December, which is also the
  day the grouping uses. \<^verbatim>\<open>new Date\<close> turns it into the instant 02:00 UTC of
  26 December, so the special-date check sees day 26 of month 12: a shift with the online
  bonus gets no special-date bonus, while the date-only text of the same day does count
  as special.
\<close>

theorem data_especial_offset_shift:
  "dia (t\<lparr> data_do_periodo := ''2024-12-25T23:00:00-03:00'' \<rparr>) = ''2024-12-25''
   \<and> getUTCDate (newDate env ''2024-12-25T23:00:00-03:00'') = Some 26
   \<and> getUTCMonth (newDate env ''2024-12-25T23:00:00-03:00'') = Some 11
   \<and> isDataEspecial (newDate env ''2024-12-25'')
   \<and> \<not> isDataEspecial (newDate env ''2024-12-25T23:00:00-03:00'')
   \<and> bonus_90_online (calcularPontosTurno env
        (t\<lparr> data_do_periodo := ''2024-12-25T23:00:00-03:00'',
            tempo_disponivel_absoluto := String ''07:30:00'',
            duracao_do_periodo := String ''08:00:00'' \<rparr>)) = 50
   \<and> bonus_data_especial (calcularPontosTurno env
        (t\<lparr> data_do_periodo := ''2024-12-25T23:00:00-03:00'',
            tempo_disponivel_absoluto := String ''07:30:00'',
            duracao_do_periodo := String ''08:00:00'' \<rparr>)) = 0"
proof -
  have d: "dia (t\<lparr> data_do_periodo := ''2024-12-25T23:00:00-03:00'' \<rparr>) = ''2024-12-25''"
    by (simp add: dia_def)
  have n: "newDate env ''2024-12-25T23:00:00-03:00'' = Some 1735178400000"
    by code_simp
  have g: "getUTCDate (Some 1735178400000) = Some 26" "getUTCMonth (Some 1735178400000) = Some 11"
    "\<not> isDataEspecial (Some 1735178400000)"
    by code_simp+
  have s: "isDataEspecial (newDate env ''2024-12-25'')"
    by code_simp
  have p: "calcularPercentualOnline (String ''07:30:00'') (String ''08:00:00'') = Fin (375 / 4)"
    by (simp add: calcularPercentualOnline_def parse_defs)
  show ?thesis
    using d g s by (simp add: calcularPontosTurno_def Let_def n p del: toFixed2.simps)
qed

text \<open>
  Claim C7. When the scheduled duration of a shift parses to 0 seconds, the online
  percentage is 0, whatever the online duration is; the division is not reached. The
  stored percentage is 0 and no online bonus is granted.
\<close>

theorem zero_duration_no_bonus:
  "durationToSeconds (duracao_do_periodo t) = Fin 0 \<Longrightarrow>
     calcularPercentualOnline (tempo_disponivel_absoluto t) (duracao_do_periodo t) = Fin 0
     \<and> percentual_tempo_online (calcularPontosTurno env t) = Fin 0
     \<and> bonus_90_online (calcularPontosTurno env t) = 0"
  by (simp add: calcularPercentualOnline_def calcularPontosTurno_def Let_def)

theorem zero_duration_no_bonus_witness:
  "durationToSeconds (String ''00:00:00'') = Fin 0
   \<and> calcularPercentualOnline (String ''07:30:00'') (String ''00:00:00'') = Fin 0
   \<and> percentual_tempo_online (calcularPontosTurno env_utc
        (turno_exemplo ''e1'' ''2024-12-25'' ''00:00:00'' ''07:30:00'' 25)) = Fin 0
   \<and> bonus_90_online (calcularPontosTurno env_utc
        (turno_exemplo ''e1'' ''2024-12-25'' ''00:00:00'' ''07:30:00'' 25)) = 0"
proof -
  have z: "durationToSeconds (String ''00:00:00'') = Fin 0"
    by (simp add: parse_defs)
  show ?thesis
    using z zero_duration_no_bonus
      [of "turno_exemplo ''e1'' ''2024-12-25'' ''00:00:00'' ''07:30:00'' 25" env_utc]
    by (simp add: turno_exemplo_def)
qed

text \<open>
  The sum of a duration whose fields are digits, up to 300 in each: every Number on the way
  is within the range.
\<close>

lemma digits_val_le:
  assumes "list_all is_digit ds" "length ds \<le> 300"
  shows "0 \<le> digits_val ds" "digits_val ds \<le> 10 ^ 300"
proof -
  have "(10 :: int) ^ length ds \<le> 10 ^ 300"
    using assms(2) by (intro power_increasing) simp_all
  then show "0 \<le> digits_val ds" "digits_val ds \<le> 10 ^ 300"
    using digits_val_range [OF assms(1)] by linarith+
qed

lemma frac_bounds:
  fixes s f :: int and k :: nat
  assumes "0 \<le> s" "0 \<le> f" "f < 10 ^ k"
  shows "(of_int s :: rat) \<le> of_int s + of_int f / 10 ^ k"
    and "(of_int s :: rat) + of_int f / 10 ^ k \<le> of_int s + 1"
    and "(of_int s :: rat) + of_int f / 10 ^ k = 0
         \<or> 1 / 10 ^ k \<le> (of_int s :: rat) + of_int f / 10 ^ k"
proof -
  have pk: "(0::rat) < 10 ^ k" by simp
  have f0: "(0::rat) \<le> of_int f / 10 ^ k" using assms(2) by simp
  have "(of_int f :: rat) < of_int (10 ^ k)" using assms(3) by (simp only: of_int_less_iff)
  then have f1: "(of_int f :: rat) / 10 ^ k \<le> 1" using pk by (simp add: divide_le_eq)
  show "(of_int s :: rat) \<le> of_int s + of_int f / 10 ^ k" using f0 by simp
  show "(of_int s :: rat) + of_int f / 10 ^ k \<le> of_int s + 1" using f1 by simp
  have s0: "(0::rat) \<le> of_int s" using assms(1) by simp
  have one: "(1::rat) / 10 ^ k \<le> 1" by (simp add: divide_le_eq)
  show "(of_int s :: rat) + of_int f / 10 ^ k = 0
         \<or> 1 / 10 ^ k \<le> (of_int s :: rat) + of_int f / 10 ^ k"
  proof (cases "f = 0")
    case True
    show ?thesis
    proof (cases "s = 0")
      case True with \<open>f = 0\<close> show ?thesis by simp
    next
      case False
      then have "1 \<le> s" using assms(1) by simp
      then have "(1::rat) \<le> of_int s" by (simp only: of_int_1_le_iff)
      then show ?thesis using f0 one by linarith
    qed
  next
    case False
    then have "1 \<le> f" using assms(2) by simp
    then have "(1::rat) \<le> of_int f" by (simp only: of_int_1_le_iff)
    then have "(1::rat) / 10 ^ k \<le> of_int f / 10 ^ k" using pk by (intro divide_right_mono) simp_all
    then show ?thesis using s0 by linarith
  qed
qed

lemma seconds_sum:
  fixes h m s f :: int and k :: nat and B :: int
  assumes "0 \<le> h" "h \<le> B" "0 \<le> m" "m \<le> B" "0 \<le> s" "s \<le> B"
    and "0 \<le> f" "f < 10 ^ k"
    and big: "3661 * of_int B + 1 < overflow_bound"
    and small: "underflow_bound < 1 / 10 ^ k"
  shows "jadd (jadd (jmul (or_zero (number_value (of_int h))) (Fin 3600))
                    (jmul (or_zero (number_value (of_int m))) (Fin 60)))
              (or_zero (number_value (of_int s + of_int f / 10 ^ k)))
         = Fin (of_int h * 3600 + of_int m * 60 + (of_int s + of_int f / 10 ^ k))"
proof -
  define x :: rat where "x = of_int s + of_int f / 10 ^ k"
  define C :: rat where "C = 3661 * of_int B + 1"
  define c :: rat where "c = 1 / 10 ^ k"
  define H :: rat where "H = of_int h"
  define M :: rat where "M = of_int m"
  define S :: rat where "S = of_int s"
  define R :: rat where "R = of_int B"
  note fb = frac_bounds [OF assms(5) assms(7) assms(8), folded x_def c_def S_def]
  have c1: "c \<le> 1" by (simp add: c_def divide_le_eq)
  have c0: "0 < c" by (simp add: c_def)
  have H: "0 \<le> H" "H \<le> R" "H = 0 \<or> 1 \<le> H"
    using assms(1,2) by (auto simp: H_def R_def)
  have M: "0 \<le> M" "M \<le> R" "M = 0 \<or> 1 \<le> M"
    using assms(3,4) by (auto simp: M_def R_def)
  have S: "0 \<le> S" "S \<le> R"
    using assms(5,6) by (auto simp: S_def R_def)
  have CR: "C = 3661 * R + 1" by (simp add: C_def R_def)
  have R0: "0 \<le> R" using H by linarith
  note nv = number_value_between [OF _ big [folded C_def] _ small [folded c_def] underflow_bound_nonneg]
  have h: "number_value H = Fin H"
    by (rule nv) (use H R0 c1 CR in \<open>linarith+\<close>)
  have m: "number_value M = Fin M"
    by (rule nv) (use M R0 c1 CR in \<open>linarith+\<close>)
  have h36: "number_value (H * 3600) = Fin (H * 3600)"
    by (rule nv) (use H R0 c1 CR in \<open>linarith+\<close>)
  have m60: "number_value (M * 60) = Fin (M * 60)"
    by (rule nv) (use M R0 c1 CR in \<open>linarith+\<close>)
  have hm: "number_value (H * 3600 + M * 60) = Fin (H * 3600 + M * 60)"
    by (rule nv) (use H M R0 c1 CR in \<open>linarith+\<close>)
  have xv: "number_value x = Fin x"
    by (rule nv) (use fb S R0 c1 CR in \<open>linarith+\<close>)
  have tot: "number_value (H * 3600 + M * 60 + x) = Fin (H * 3600 + M * 60 + x)"
    by (rule nv) (use fb H M S R0 c1 CR in \<open>linarith+\<close>)
  have "jadd (jadd (jmul (or_zero (number_value H)) (Fin 3600))
                    (jmul (or_zero (number_value M)) (Fin 60)))
              (or_zero (number_value x))
         = Fin (H * 3600 + M * 60 + x)"
    by (simp add: h m xv h36 m60 hm tot)
  then show ?thesis unfolding H_def M_def x_def .
qed

text \<open>
  Claim C8. \<^verbatim>\<open>durationToSeconds\<close> returns a Number for every value and raises nothing.
  It is 0 for a value that is not a string, for the empty string, and for a string that
  does not split at colons into exactly three fields. For \<^verbatim>\<open>HH:MM:SS\<close> and
  \<^verbatim>\<open>HH:MM:SS.fraction\<close> made of decimal digits, up to 300 in each field, it is hours
  times 3600 plus minutes times 60 plus seconds, the fraction included. A field in which
  the parser finds no numeral counts as 0: when, after white space and a sign, the field
  starts with no digit (for the seconds also: with no point followed by a digit, and not
  with \<^verbatim>\<open>Infinity\<close>), the result is the one for the same text with \<^verbatim>\<open>0\<close> in that
  field. Other text that is not a number does not count as 0: the seconds field
  \<^verbatim>\<open>Infinity\<close> makes the duration infinite, a field counts as the numeral it starts
  with (\<^verbatim>\<open>1x\<close> is 1), and hours and minutes are read in base 16 after \<^verbatim>\<open>0x\<close>.
\<close>

theorem durationToSeconds_spec:
  "((\<forall>s. v \<noteq> String s) \<longrightarrow> durationToSeconds v = Fin 0)
   \<and> durationToSeconds (String []) = Fin 0
   \<and> (length (split_on CHR '':'' s) \<noteq> 3 \<longrightarrow> durationToSeconds (String s) = Fin 0)
   \<and> (hh \<noteq> [] \<and> mm \<noteq> [] \<and> ss \<noteq> [] \<and> list_all is_digit hh \<and> list_all is_digit mm
        \<and> list_all is_digit ss \<and> list_all is_digit ff
        \<and> length hh \<le> 300 \<and> length mm \<le> 300 \<and> length ss \<le> 300 \<and> length ff \<le> 300 \<longrightarrow>
        durationToSeconds (String (hh @ '':'' @ mm @ '':'' @ ss))
          = Fin (of_int (digits_val hh) * 3600 + of_int (digits_val mm) * 60
                 + of_int (digits_val ss))
        \<and> durationToSeconds (String (hh @ '':'' @ mm @ '':'' @ ss @ ''.'' @ ff))
          = Fin (of_int (digits_val hh) * 3600 + of_int (digits_val mm) * 60
                 + (of_int (digits_val ss) + of_int (digits_val ff) / 10 ^ length ff)))
   \<and> (CHR '':'' \<notin> set p0 \<and> CHR '':'' \<notin> set p1 \<and> CHR '':'' \<notin> set p2 \<longrightarrow>
        (takeWhile is_digit (snd (take_sign (dropWhile is_space p0))) = [] \<longrightarrow>
           durationToSeconds (String (p0 @ '':'' @ p1 @ '':'' @ p2))
             = durationToSeconds (String (''0'' @ '':'' @ p1 @ '':'' @ p2)))
        \<and> (takeWhile is_digit (snd (take_sign (dropWhile is_space p1))) = [] \<longrightarrow>
           durationToSeconds (String (p0 @ '':'' @ p1 @ '':'' @ p2))
             = durationToSeconds (String (p0 @ '':'' @ ''0'' @ '':'' @ p2)))
        \<and> (takeWhile is_digit (snd (take_sign (dropWhile is_space p2))) = []
            \<and> \<not> (take 1 (snd (take_sign (dropWhile is_space p2))) = ''.''
                  \<and> takeWhile is_digit (drop 1 (snd (take_sign (dropWhile is_space p2)))) \<noteq> [])
            \<and> take 8 (snd (take_sign (dropWhile is_space p2))) \<noteq> ''Infinity'' \<longrightarrow>
           durationToSeconds (String (p0 @ '':'' @ p1 @ '':'' @ p2))
             = durationToSeconds (String (p0 @ '':'' @ p1 @ '':'' @ ''0''))))
   \<and> durationToSeconds (String ''00:00:Infinity'') = PInf
   \<and> durationToSeconds (String ''1x:00:00'') = Fin 3600
   \<and> durationToSeconds (String ''0x10:00:00'') = Fin 57600"
proof -
  have not_string: "(\<forall>s. v \<noteq> String s) \<longrightarrow> durationToSeconds v = Fin 0"
    by (cases v) (simp_all add: durationToSeconds_def)
  have empty: "durationToSeconds (String []) = Fin 0"
    by (simp add: durationToSeconds_def)
  have fields: "length (split_on CHR '':'' s) \<noteq> 3 \<longrightarrow> durationToSeconds (String s) = Fin 0"
    by (auto simp: durationToSeconds_def split: list.splits)
  have zero_int: "parseInt ''0'' = Fin 0"
    by (simp add: parseInt_def is_digit_def is_space_def digits_val_def digit_val_def)
  have zero_float: "parseFloat ''0'' = Fin 0"
    by (simp add: parseFloat_def is_digit_def is_space_def digits_val_def digit_val_def
        exponent_part_def)
  have wf: "durationToSeconds (String (hh @ '':'' @ mm @ '':'' @ ss))
          = Fin (of_int (digits_val hh) * 3600 + of_int (digits_val mm) * 60
                 + of_int (digits_val ss))
        \<and> durationToSeconds (String (hh @ '':'' @ mm @ '':'' @ ss @ ''.'' @ ff))
          = Fin (of_int (digits_val hh) * 3600 + of_int (digits_val mm) * 60
                 + (of_int (digits_val ss) + of_int (digits_val ff) / 10 ^ length ff))"
    if h: "hh \<noteq> []" "mm \<noteq> []" "ss \<noteq> []" "list_all is_digit hh" "list_all is_digit mm"
      "list_all is_digit ss" "list_all is_digit ff"
      and l: "length hh \<le> 300" "length mm \<le> 300" "length ss \<le> 300" "length ff \<le> 300"
  proof -
    have c: "CHR '':'' \<notin> set hh" "CHR '':'' \<notin> set mm" "CHR '':'' \<notin> set ss"
      "CHR '':'' \<notin> set (ss @ CHR ''.'' # ff)"
      using h by (auto dest: digits_no_colon)
    note bh = digits_val_le [OF h(4) l(1)]
    note bm = digits_val_le [OF h(5) l(2)]
    note bs = digits_val_le [OF h(6) l(3)]
    have bf: "0 \<le> digits_val ff" "digits_val ff < 10 ^ length ff"
      using digits_val_range [OF h(7)] by simp_all
    have big: "3661 * of_int (10 ^ 300 :: int) + 1 < overflow_bound"
      using bounds_large(1) by simp
    have small: "underflow_bound < 1 / 10 ^ k" if "k \<le> 300" for k :: nat
    proof -
      have "(10 :: rat) ^ k \<le> 10 ^ 300" using that by (intro power_increasing) simp_all
      then have "(1 :: rat) / 10 ^ 300 \<le> 1 / 10 ^ k" by (intro divide_left_mono) simp_all
      with bounds_large(2) show ?thesis by (rule order_less_le_trans)
    qed
    have z: "(0 :: int) < 10 ^ 0" by simp
    note sum0 = seconds_sum [OF bh bm bs order_refl z big small [of 0]]
    note sum1 = seconds_sum [OF bh bm bs bf big small [OF l(4)]]
    have 1: "durationToSeconds (String (hh @ CHR '':'' # mm @ CHR '':'' # ss))
          = Fin (of_int (digits_val hh) * 3600 + of_int (digits_val mm) * 60
                 + of_int (digits_val ss))"
      using h sum0 by (simp add: durationToSeconds_fields [OF c(1) c(2) c(3)] parseInt_digits
          parseFloat_digits)
    have 2: "durationToSeconds (String (hh @ CHR '':'' # mm @ CHR '':'' # (ss @ CHR ''.'' # ff)))
          = Fin (of_int (digits_val hh) * 3600 + of_int (digits_val mm) * 60
                 + (of_int (digits_val ss) + of_int (digits_val ff) / 10 ^ length ff))"
      using h sum1 by (simp add: durationToSeconds_fields [OF c(1) c(2) c(4)] parseInt_digits
          parseFloat_fraction)
    show ?thesis using 1 2 by simp
  qed
  have c0: "CHR '':'' \<notin> set ''0''" by simp
  have degrade: "(takeWhile is_digit (snd (take_sign (dropWhile is_space p0))) = [] \<longrightarrow>
           durationToSeconds (String (p0 @ '':'' @ p1 @ '':'' @ p2))
             = durationToSeconds (String (''0'' @ '':'' @ p1 @ '':'' @ p2)))
        \<and> (takeWhile is_digit (snd (take_sign (dropWhile is_space p1))) = [] \<longrightarrow>
           durationToSeconds (String (p0 @ '':'' @ p1 @ '':'' @ p2))
             = durationToSeconds (String (p0 @ '':'' @ ''0'' @ '':'' @ p2)))
        \<and> (takeWhile is_digit (snd (take_sign (dropWhile is_space p2))) = []
            \<and> \<not> (take 1 (snd (take_sign (dropWhile is_space p2))) = ''.''
                  \<and> takeWhile is_digit (drop 1 (snd (take_sign (dropWhile is_space p2)))) \<noteq> [])
            \<and> take 8 (snd (take_sign (dropWhile is_space p2))) \<noteq> ''Infinity'' \<longrightarrow>
           durationToSeconds (String (p0 @ '':'' @ p1 @ '':'' @ p2))
             = durationToSeconds (String (p0 @ '':'' @ p1 @ '':'' @ ''0'')))"
    if c: "CHR '':'' \<notin> set p0" "CHR '':'' \<notin> set p1" "CHR '':'' \<notin> set p2"
  proof -
    have a: "durationToSeconds (String (p0 @ '':'' @ p1 @ '':'' @ p2))
         = jadd (jadd (jmul (or_zero (parseInt p0)) (Fin 3600)) (jmul (or_zero (parseInt p1)) (Fin 60)))
                (or_zero (parseFloat p2))"
      using durationToSeconds_fields [OF c] by simp
    have b0: "durationToSeconds (String (''0'' @ '':'' @ p1 @ '':'' @ p2))
         = jadd (jadd (jmul (or_zero (parseInt ''0'')) (Fin 3600)) (jmul (or_zero (parseInt p1)) (Fin 60)))
                (or_zero (parseFloat p2))"
      using durationToSeconds_fields [OF c0 c(2) c(3)] by simp
    have b1: "durationToSeconds (String (p0 @ '':'' @ ''0'' @ '':'' @ p2))
         = jadd (jadd (jmul (or_zero (parseInt p0)) (Fin 3600)) (jmul (or_zero (parseInt ''0'')) (Fin 60)))
                (or_zero (parseFloat p2))"
      using durationToSeconds_fields [OF c(1) c0 c(3)] by simp
    have b2: "durationToSeconds (String (p0 @ '':'' @ p1 @ '':'' @ ''0''))
         = jadd (jadd (jmul (or_zero (parseInt p0)) (Fin 3600)) (jmul (or_zero (parseInt p1)) (Fin 60)))
                (or_zero (parseFloat ''0''))"
      using durationToSeconds_fields [OF c(1) c(2) c0] by simp
    have i0: "takeWhile is_digit (snd (take_sign (dropWhile is_space p0))) = []
                \<longrightarrow> or_zero (parseInt p0) = Fin 0"
      by (simp add: parseInt_no_numeral)
    have i1: "takeWhile is_digit (snd (take_sign (dropWhile is_space p1))) = []
                \<longrightarrow> or_zero (parseInt p1) = Fin 0"
      by (simp add: parseInt_no_numeral)
    have i2: "takeWhile is_digit (snd (take_sign (dropWhile is_space p2))) = []
            \<and> \<not> (take 1 (snd (take_sign (dropWhile is_space p2))) = ''.''
                  \<and> takeWhile is_digit (drop 1 (snd (take_sign (dropWhile is_space p2)))) \<noteq> [])
            \<and> take 8 (snd (take_sign (dropWhile is_space p2))) \<noteq> ''Infinity''
                \<longrightarrow> or_zero (parseFloat p2) = Fin 0"
      using parseFloat_no_numeral [of p2] by auto
    show ?thesis
      unfolding a b0 b1 b2 zero_int zero_float
      using i0 i1 i2 by auto
  qed
  have inf: "durationToSeconds (String ''00:00:Infinity'') = PInf"
    "durationToSeconds (String ''1x:00:00'') = Fin 3600"
    "durationToSeconds (String ''0x10:00:00'') = Fin 57600"
    by (simp_all add: parse_defs is_hex_digit_def hex_digits_val_def hex_digit_val_def)
  show ?thesis
    using not_string empty fields wf degrade inf by blast
qed

theorem durationToSeconds_spec_witness:
  "durationToSeconds Undefined = Fin 0
   \<and> durationToSeconds (Number (Fin 8)) = Fin 0
   \<and> durationToSeconds (String ''08:00'') = Fin 0
   \<and> durationToSeconds (String ''07:30:15'') = Fin 27015
   \<and> durationToSeconds (String ''07:30:15.5'') = Fin (54031 / 2)
   \<and> durationToSeconds (String ''x1:30:15'') = Fin 1815
   \<and> durationToSeconds (String ''07:--:15'') = Fin 25215
   \<and> durationToSeconds (String ''07:30:.s'') = Fin 27000"
proof -
  have dig: "list_all is_digit ''07''" "list_all is_digit ''30''" "list_all is_digit ''15''"
    "list_all is_digit ''5''"
    by (simp_all add: is_digit_def)
  have nonum: "takeWhile is_digit (snd (take_sign (dropWhile is_space ''x1''))) = []"
    "takeWhile is_digit (snd (take_sign (dropWhile is_space ''--''))) = []"
    "takeWhile is_digit (snd (take_sign (dropWhile is_space ''.s''))) = []"
    "\<not> (take 1 (snd (take_sign (dropWhile is_space ''.s''))) = ''.''
        \<and> takeWhile is_digit (drop 1 (snd (take_sign (dropWhile is_space ''.s'')))) \<noteq> [])"
    "take 8 (snd (take_sign (dropWhile is_space ''.s''))) \<noteq> ''Infinity''"
    by (simp_all add: is_digit_def is_space_def)
  have len: "length (split_on CHR '':'' ''08:00'') \<noteq> 3" by simp
  have z: "durationToSeconds (String ''0:30:15'') = Fin 1815"
    "durationToSeconds (String ''07:0:15'') = Fin 25215"
    "durationToSeconds (String ''07:30:0'') = Fin 27000"
    by (simp_all add: parse_defs)
  have v: "digits_val ''07'' = 7" "digits_val ''30'' = 30" "digits_val ''15'' = 15"
    "digits_val ''5'' = 5"
    by (simp_all add: digits_val_def digit_val_def)
  show ?thesis
    using durationToSeconds_spec [of Undefined "''08:00''" "''07''" "''30''" "''15''" "''5''" "''x1''" "''30''" "''15''"]
      durationToSeconds_spec [of "Number (Fin 8)" "''08:00''" "''07''" "''30''" "''15''" "''5''" "''07''" "''--''" "''15''"]
      durationToSeconds_spec [of Undefined "''08:00''" "''07''" "''30''" "''15''" "''5''" "''07''" "''30''" "''.s''"]
      dig nonum len
    by (simp add: z v)
qed

text \<open>
  Claim C9. The online percentage, and the stored \<^verbatim>\<open>percentual_tempo_online\<close>, are
  meant to be at least 0; the comment of \<^verbatim>\<open>calcularPercentualOnline\<close> gives its result
  as a percentage from 0 to 100. Nothing in the module clamps the value. A minus sign in
  the hours field is read by \<^verbatim>\<open>parseInt\<close>, so the online duration \<^verbatim>\<open>-01:00:00\<close> is
  3600 seconds below zero: against a shift of one hour the percentage is 100 below zero,
  and so is the stored field.
\<close>

theorem percentual_negative_counterexample:
  "durationToSeconds (String ''-01:00:00'') = Fin (- 3600)
   \<and> calcularPercentualOnline (String ''-01:00:00'') (String ''01:00:00'') = Fin (- 100)
   \<and> \<not> jge (calcularPercentualOnline (String ''-01:00:00'') (String ''01:00:00'')) (Fin 0)
   \<and> percentual_tempo_online (calcularPontosTurno env
        (t\<lparr> tempo_disponivel_absoluto := String ''-01:00:00'',
            duracao_do_periodo := String ''01:00:00'' \<rparr>)) = Fin (- 100)
   \<and> \<not> jge (percentual_tempo_online (calcularPontosTurno env
        (t\<lparr> tempo_disponivel_absoluto := String ''-01:00:00'',
            duracao_do_periodo := String ''01:00:00'' \<rparr>))) (Fin 0)"
proof -
  have d: "durationToSeconds (String ''-01:00:00'') = Fin (- 3600)"
    by (simp add: parse_defs)
  have p: "calcularPercentualOnline (String ''-01:00:00'') (String ''01:00:00'') = Fin (- 100)"
    by (simp add: calcularPercentualOnline_def parse_defs)
  have r: "toFixed2 (Fin (- 100)) = Fin (- 100)"
    by code_simp
  show ?thesis
    by (simp add: calcularPontosTurno_def d p r Let_def del: toFixed2.simps)
qed

text \<open>
  Claim C10. The online bonus is decided on the unrounded percentage, while the stored
  \<^verbatim>\<open>percentual_tempo_online\<close> is that percentage rounded to two decimals. A one-hour shift
  with 53 minutes 59.9 seconds online has the exact percentage 32399/360, strictly between
  89.995 and 90: the stored percentage is 90 and the online bonus is 0.
\<close>

theorem stored_percentual_hides_decision:
  "percentual_tempo_online (calcularPontosTurno env t)
     = toFixed2 (calcularPercentualOnline (tempo_disponivel_absoluto t) (duracao_do_periodo t))
   \<and> bonus_90_online (calcularPontosTurno env t)
     = (if jge (calcularPercentualOnline (tempo_disponivel_absoluto t) (duracao_do_periodo t)) (Fin 90)
        then 50 else 0)
   \<and> calcularPercentualOnline (String ''00:53:59.9'') (String ''01:00:00'') = Fin (32399 / 360)
   \<and> (89995 / 1000 :: rat) < 32399 / 360 \<and> (32399 / 360 :: rat) < 90
   \<and> percentual_tempo_online (calcularPontosTurno env
        (t\<lparr> tempo_disponivel_absoluto := String ''00:53:59.9'',
            duracao_do_periodo := String ''01:00:00'' \<rparr>)) = Fin 90
   \<and> bonus_90_online (calcularPontosTurno env
        (t\<lparr> tempo_disponivel_absoluto := String ''00:53:59.9'',
            duracao_do_periodo := String ''01:00:00'' \<rparr>)) = 0"
proof -
  have a: "calcularPercentualOnline (String ''00:53:59.9'') (String ''01:00:00'') = Fin (32399 / 360)"
    by (simp add: calcularPercentualOnline_def parse_defs)
  have r: "toFixed2 (Fin (32399 / 360)) = Fin 90"
    by code_simp
  show ?thesis
    by (simp add: calcularPontosTurno_def a r Let_def del: toFixed2.simps)
qed

section \<open>The daily goal\<close>

lemma foldl_agrupar:
  "foldl (\<lambda>grupos r. grupos(chave (snd r) \<mapsto>
             (case grupos (chave (snd r)) of None \<Rightarrow> [] | Some g \<Rightarrow> g) @ [r])) m refs k
   = (case m k of
        None \<Rightarrow> if filter (\<lambda>r. chave (snd r) = k) refs = [] then None
                else Some (filter (\<lambda>r. chave (snd r) = k) refs)
      | Some g0 \<Rightarrow> Some (g0 @ filter (\<lambda>r. chave (snd r) = k) refs))"
    (is "foldl ?f m refs k = _")
proof (induction refs arbitrary: m)
  case Nil
  show ?case by (simp split: option.splits)
next
  case (Cons r refs)
  have "foldl ?f m (r # refs) k = foldl ?f (?f m r) refs k" by simp
  also have "\<dots> = (case (?f m r) k of
        None \<Rightarrow> if filter (\<lambda>r. chave (snd r) = k) refs = [] then None
                else Some (filter (\<lambda>r. chave (snd r) = k) refs)
      | Some g0 \<Rightarrow> Some (g0 @ filter (\<lambda>r. chave (snd r) = k) refs))"
    by (rule Cons.IH)
  also have "\<dots> = (case m k of
        None \<Rightarrow> if filter (\<lambda>r. chave (snd r) = k) (r # refs) = [] then None
                else Some (filter (\<lambda>r. chave (snd r) = k) (r # refs))
      | Some g0 \<Rightarrow> Some (g0 @ filter (\<lambda>r. chave (snd r) = k) (r # refs)))"
    by (simp split: option.splits)
  finally show ?case .
qed

lemma agrupar_lookup:
  "agruparPorDiaEntregador refs k
   = (if filter (\<lambda>r. chave (snd r) = k) refs = [] then None
      else Some (filter (\<lambda>r. chave (snd r) = k) refs))"
  by (simp add: agruparPorDiaEntregador_def foldl_agrupar)

lemma map_ou_erro_Inr:
  "(\<forall>x \<in> set xs. f x = Inr (g x)) \<Longrightarrow> map_ou_erro f xs = Inr (map g xs)"
  by (induction xs) auto

lemma finalizar_member:
  assumes "r \<in> set refs"
  shows "finalizar (agruparPorDiaEntregador refs) r
         = Inr (anexar_meta (filter (\<lambda>r'. chave (snd r') = chave (snd r)) refs) r)"
proof -
  have "filter (\<lambda>r'. chave (snd r') = chave (snd r)) refs \<noteq> []"
    using assms by (auto simp: filter_empty_conv)
  then show ?thesis by (simp add: finalizar_def agrupar_lookup)
qed

lemma processar_eq:
  "processarTodosOsTurnos env ts
   = Inr (map (\<lambda>r. anexar_meta
                 (filter (\<lambda>r'. chave (snd r') = chave (snd r))
                    (enumerate 0 (map (comPontos env) ts))) r)
            (enumerate 0 (map (comPontos env) ts)))"
  unfolding processarTodosOsTurnos_def Let_def
  by (rule map_ou_erro_Inr) (simp add: finalizar_member)


lemma append_sep_eq:
  "c \<notin> set a \<Longrightarrow> c \<notin> set b \<Longrightarrow> a @ c # x = b @ c # y \<Longrightarrow> a = b \<and> x = y"
proof (induction a arbitrary: b)
  case Nil
  then show ?case by (cases b) auto
next
  case (Cons h a)
  then show ?case by (cases b) auto
qed

lemma chave_parts:
  assumes "CHR ''|'' \<notin> set d1" "CHR ''|'' \<notin> set d2"
  shows "(w1 @ CHR ''|'' # d1 = w2 @ CHR ''|'' # d2) = (w1 = w2 \<and> d1 = d2)"
proof
  assume "w1 @ CHR ''|'' # d1 = w2 @ CHR ''|'' # d2"
  then have "rev (w1 @ CHR ''|'' # d1) = rev (w2 @ CHR ''|'' # d2)" by simp
  then have "rev d1 @ CHR ''|'' # rev w1 = rev d2 @ CHR ''|'' # rev w2" by simp
  from append_sep_eq [OF _ _ this] assms have "rev d1 = rev d2 \<and> rev w1 = rev w2" by simp
  then show "w1 = w2 \<and> d1 = d2" by simp
qed auto

lemma anexar_meta_fields [simp]:
  "id_da_pessoa_entregadora (anexar_meta g r) = id_da_pessoa_entregadora (snd r)"
  "data_do_periodo (anexar_meta g r) = data_do_periodo (snd r)"
  "numero_de_corridas_completadas (anexar_meta g r) = numero_de_corridas_completadas (snd r)"
  "pontos (anexar_meta g r) = pontos (snd r)"
  "total_pontos_final (anexar_meta g r)
     = total_pontos_turno (pontos (snd r)) + bonus_meta_diaria (anexar_meta g r)"
  by (simp_all add: anexar_meta_def Let_def)

lemma anexar_meta_dia [simp]: "dia (anexar_meta g r) = dia (snd r)"
  by (simp add: dia_def)

lemma anexar_meta_corridas [simp]: "corridas (anexar_meta g r) = corridas (snd r)"
  by (simp add: corridas_def)

lemma anexar_meta_bonus:
  "bonus_meta_diaria (anexar_meta (r0 # g) r)
     = (if fst r0 = fst r then calcularBonusMetaDiaria (calcularEntregasNoDia (r0 # g)) else 0)"
  by (simp add: anexar_meta_def Let_def)

lemma comPontos_fields [simp]:
  "id_da_pessoa_entregadora (comPontos env t) = id_da_pessoa_entregadora t"
  "data_do_periodo (comPontos env t) = data_do_periodo t"
  "numero_de_corridas_completadas (comPontos env t) = numero_de_corridas_completadas t"
  "pontos (comPontos env t) = calcularPontosTurno env t"
  by (simp_all add: comPontos_def)

lemma comPontos_dia [simp]: "dia (comPontos env t) = dia t"
  by (simp add: dia_def)

lemma foldl_add_sum: "foldl (\<lambda>a r. a + f r) (z :: int) xs = z + sum_list (map f xs)"
  by (induction xs arbitrary: z) auto

lemma calcularEntregasNoDia_sum:
  "calcularEntregasNoDia g = sum_list (map (\<lambda>r. corridas (snd r)) g)"
  by (simp add: calcularEntregasNoDia_def foldl_add_sum)

lemma sum_list_zero: "(\<forall>x \<in> set xs. f x = (0 :: int)) \<Longrightarrow> sum_list (map f xs) = 0"
  by (induction xs) auto

text \<open>
  Claim C1. \<^verbatim>\<open>processarTodosOsTurnos\<close> returns one finalized shift per input shift, in
  the order of the input, and each final total is the shift subtotal plus the shift's own
  daily-goal bonus. Take the shifts of one worker on one calendar day: the first of them
  in input order carries the bonus computed once from the deliveries of the whole group
  (300 from 30 deliveries, 200 from 20, otherwise 0), every other one carries 0, and so
  the bonuses of the group add up to that one bonus. The groups are keyed by the
  identifier, a \<^verbatim>\<open>|\<close> and the day; the statement is for inputs whose day texts hold no
  \<^verbatim>\<open>|\<close>, as every date does.
\<close>

theorem daily_bonus_once:
  "\<exists>rs. processarTodosOsTurnos env ts = Inr rs
     \<and> map (\<lambda>r. (id_da_pessoa_entregadora r, data_do_periodo r,
                  numero_de_corridas_completadas r, pontos r)) rs
       = map (\<lambda>t. (id_da_pessoa_entregadora t, data_do_periodo t,
                    numero_de_corridas_completadas t, calcularPontosTurno env t)) ts
     \<and> (\<forall>r \<in> set rs.
          total_pontos_final r = total_pontos_turno (pontos r) + bonus_meta_diaria r)
     \<and> ((\<forall>t \<in> set ts. CHR ''|'' \<notin> set (dia t)) \<longrightarrow>
        (\<forall>w d. grupo_do_dia w d rs \<noteq> [] \<longrightarrow>
          bonus_meta_diaria (hd (grupo_do_dia w d rs))
            = calcularBonusMetaDiaria (sum_list (map corridas (grupo_do_dia w d rs)))
          \<and> (\<forall>r \<in> set (tl (grupo_do_dia w d rs)). bonus_meta_diaria r = 0)
          \<and> sum_list (map bonus_meta_diaria (grupo_do_dia w d rs))
            = calcularBonusMetaDiaria (sum_list (map corridas (grupo_do_dia w d rs)))))
     \<and> calcularBonusMetaDiaria n = (if 30 \<le> n then 300 else if 20 \<le> n then 200 else 0)"
proof -
  define refs where "refs = enumerate 0 (map (comPontos env) ts)"
  define F where "F = (\<lambda>r. anexar_meta (filter (\<lambda>r'. chave (snd r') = chave (snd r)) refs) r)"
  define rs where "rs = map F refs"
  have eq: "processarTodosOsTurnos env ts = Inr rs"
    unfolding rs_def F_def refs_def by (rule processar_eq)
  have snd_refs: "map snd refs = map (comPontos env) ts"
    by (simp add: refs_def)
  have dist: "distinct (map fst refs)"
    by (simp add: refs_def)
  have nobar: "\<forall>r \<in> set refs. CHR ''|'' \<notin> set (dia (snd r))"
    if bar: "\<forall>t \<in> set ts. CHR ''|'' \<notin> set (dia t)"
  proof
    fix r assume "r \<in> set refs"
    then have "snd r \<in> set (map snd refs)" by simp
    then obtain t where "t \<in> set ts" "snd r = comPontos env t"
      unfolding snd_refs by auto
    then show "CHR ''|'' \<notin> set (dia (snd r))" using bar by simp
  qed
  have proj: "map (\<lambda>r. (id_da_pessoa_entregadora r, data_do_periodo r,
                  numero_de_corridas_completadas r, pontos r)) rs
       = map (\<lambda>t. (id_da_pessoa_entregadora t, data_do_periodo t,
                    numero_de_corridas_completadas t, calcularPontosTurno env t)) ts"
  proof -
    have "map (\<lambda>r. (id_da_pessoa_entregadora r, data_do_periodo r,
                  numero_de_corridas_completadas r, pontos r)) rs
       = map (\<lambda>t. (id_da_pessoa_entregadora t, data_do_periodo t,
                  numero_de_corridas_completadas t, pontos t)) (map snd refs)"
      by (simp add: rs_def F_def comp_def)
    also have "\<dots> = map (\<lambda>t. (id_da_pessoa_entregadora t, data_do_periodo t,
                    numero_de_corridas_completadas t, calcularPontosTurno env t)) ts"
      unfolding snd_refs by (simp add: comp_def)
    finally show ?thesis .
  qed
  have tot: "\<forall>r \<in> set rs.
          total_pontos_final r = total_pontos_turno (pontos r) + bonus_meta_diaria r"
    by (auto simp: rs_def F_def)
  have grp: "bonus_meta_diaria (hd (grupo_do_dia w d rs))
            = calcularBonusMetaDiaria (sum_list (map corridas (grupo_do_dia w d rs)))
          \<and> (\<forall>r \<in> set (tl (grupo_do_dia w d rs)). bonus_meta_diaria r = 0)
          \<and> sum_list (map bonus_meta_diaria (grupo_do_dia w d rs))
            = calcularBonusMetaDiaria (sum_list (map corridas (grupo_do_dia w d rs)))"
    if bar: "\<forall>t \<in> set ts. CHR ''|'' \<notin> set (dia t)"
      and ne: "grupo_do_dia w d rs \<noteq> []" for w d
  proof -
    note nobar = nobar [OF bar]
    define k where "k = w @ ''|'' @ d"
    define g0 where "g0 = filter (\<lambda>r. chave (snd r) = k) refs"
    have G1: "grupo_do_dia w d rs
          = map F (filter (\<lambda>r. id_da_pessoa_entregadora (snd r) = w \<and> dia (snd r) = d) refs)"
      by (simp add: grupo_do_dia_def rs_def filter_map comp_def F_def)
    then have "filter (\<lambda>r. id_da_pessoa_entregadora (snd r) = w \<and> dia (snd r) = d) refs \<noteq> []"
      using ne by auto
    then obtain r1 where
      "r1 \<in> set (filter (\<lambda>r. id_da_pessoa_entregadora (snd r) = w \<and> dia (snd r) = d) refs)"
      by (meson hd_in_set)
    then have r1: "r1 \<in> set refs" "id_da_pessoa_entregadora (snd r1) = w" "dia (snd r1) = d"
      by simp_all
    have dbar: "CHR ''|'' \<notin> set d" using nobar r1 by auto
    have same: "\<forall>r \<in> set refs. (chave (snd r) = k)
                  = (id_da_pessoa_entregadora (snd r) = w \<and> dia (snd r) = d)"
      using nobar dbar by (simp add: chave_def k_def chave_parts)
    have "filter (\<lambda>r. id_da_pessoa_entregadora (snd r) = w \<and> dia (snd r) = d) refs = g0"
      unfolding g0_def using same by (intro filter_cong) auto
    then have G2: "grupo_do_dia w d rs = map F g0" using G1 by simp
    have "\<forall>r \<in> set g0. F r = anexar_meta g0 r"
      by (auto simp: g0_def F_def)
    then have G: "grupo_do_dia w d rs = map (anexar_meta g0) g0"
      using G2 by (simp cong: map_cong)
    obtain r0 rest where g0: "g0 = r0 # rest" using ne G by (cases g0) auto
    have "distinct (map fst g0)"
      unfolding g0_def using dist by (rule distinct_map_filter)
    then have others: "\<forall>r \<in> set rest. fst r0 \<noteq> fst r"
      using g0 by auto
    have cor: "sum_list (map corridas (grupo_do_dia w d rs)) = calcularEntregasNoDia g0"
      by (simp add: G calcularEntregasNoDia_sum comp_def)
    have first: "bonus_meta_diaria (anexar_meta g0 r0)
                 = calcularBonusMetaDiaria (calcularEntregasNoDia g0)"
      unfolding g0 by (simp add: anexar_meta_bonus)
    have zero: "\<forall>r \<in> set rest. bonus_meta_diaria (anexar_meta g0 r) = 0"
      unfolding g0 using others by (simp add: anexar_meta_bonus)
    have hdG: "hd (grupo_do_dia w d rs) = anexar_meta g0 r0"
      and tlG: "tl (grupo_do_dia w d rs) = map (anexar_meta g0) rest"
      by (simp_all add: G g0)
    have s0: "sum_list (map bonus_meta_diaria (map (anexar_meta g0) rest)) = 0"
      using zero by (simp add: comp_def sum_list_zero)
    have "grupo_do_dia w d rs = anexar_meta g0 r0 # map (anexar_meta g0) rest"
      by (simp add: G g0)
    then have sum: "sum_list (map bonus_meta_diaria (grupo_do_dia w d rs))
                    = calcularBonusMetaDiaria (calcularEntregasNoDia g0)"
      using first s0 by simp
    show ?thesis
      unfolding hdG tlG cor using first zero sum cor by simp
  qed
  have bonus: "calcularBonusMetaDiaria n = (if 30 \<le> n then 300 else if 20 \<le> n then 200 else 0)"
    by (simp add: calcularBonusMetaDiaria_def)
  show ?thesis
    using eq proj tot grp bonus by blast
qed

theorem daily_bonus_once_witness:
  "list_all (\<lambda>t. CHR ''|'' \<notin> set (dia t))
     [turno_exemplo ''7'' ''2024-12-25'' ''08:00:00'' ''07:30:00'' 10,
      turno_exemplo ''abc'' ''2024-12-25T10:00:00Z'' ''08:00:00'' ''01:30:00'' 40,
      turno_exemplo ''7'' ''2024-12-25T13:00'' ''08:00:00'' ''07:30:00'' 15,
      turno_exemplo ''7'' ''2024-12-25'' ''08:00:00'' ''07:30:00'' 10]
   \<and> (\<exists>rs. processarTodosOsTurnos env_utc
        [turno_exemplo ''7'' ''2024-12-25'' ''08:00:00'' ''07:30:00'' 10,
         turno_exemplo ''abc'' ''2024-12-25T10:00:00Z'' ''08:00:00'' ''01:30:00'' 40,
         turno_exemplo ''7'' ''2024-12-25T13:00'' ''08:00:00'' ''07:30:00'' 15,
         turno_exemplo ''7'' ''2024-12-25'' ''08:00:00'' ''07:30:00'' 10] = Inr rs
      \<and> map (\<lambda>r. (total_pontos_turno (pontos r), bonus_meta_diaria r, total_pontos_final r)) rs
        = [(200, 300, 500), (400, 300, 700), (250, 0, 250), (200, 0, 200)]
      \<and> map bonus_meta_diaria (grupo_do_dia ''7'' ''2024-12-25'' rs) = [300, 0, 0]
      \<and> sum_list (map corridas (grupo_do_dia ''7'' ''2024-12-25'' rs)) = 35
      \<and> bonus_meta_diaria (hd (grupo_do_dia ''7'' ''2024-12-25'' rs))
        = calcularBonusMetaDiaria (sum_list (map corridas (grupo_do_dia ''7'' ''2024-12-25'' rs))))"
proof -
  define ts where "ts = [turno_exemplo ''7'' ''2024-12-25'' ''08:00:00'' ''07:30:00'' 10,
      turno_exemplo ''abc'' ''2024-12-25T10:00:00Z'' ''08:00:00'' ''01:30:00'' 40,
      turno_exemplo ''7'' ''2024-12-25T13:00'' ''08:00:00'' ''07:30:00'' 15,
      turno_exemplo ''7'' ''2024-12-25'' ''08:00:00'' ''07:30:00'' 10]"
  have bar: "list_all (\<lambda>t. CHR ''|'' \<notin> set (dia t)) ts"
    unfolding ts_def by code_simp
  then have bar': "\<forall>t \<in> set ts. CHR ''|'' \<notin> set (dia t)"
    by (simp only: list_all_iff)
  from daily_bonus_once [of env_utc ts] obtain rs where
    rs: "processarTodosOsTurnos env_utc ts = Inr rs"
    and grp: "(\<forall>t \<in> set ts. CHR ''|'' \<notin> set (dia t)) \<longrightarrow>
        (\<forall>w d. grupo_do_dia w d rs \<noteq> [] \<longrightarrow>
          bonus_meta_diaria (hd (grupo_do_dia w d rs))
            = calcularBonusMetaDiaria (sum_list (map corridas (grupo_do_dia w d rs))))"
    by blast
  have ev: "(case processarTodosOsTurnos env_utc ts of
               Inl _ \<Rightarrow> False
             | Inr rs \<Rightarrow>
                 map (\<lambda>r. (total_pontos_turno (pontos r), bonus_meta_diaria r, total_pontos_final r)) rs
                   = [(200, 300, 500), (400, 300, 700), (250, 0, 250), (200, 0, 200)]
                 \<and> map bonus_meta_diaria (grupo_do_dia ''7'' ''2024-12-25'' rs) = [300, 0, 0]
                 \<and> sum_list (map corridas (grupo_do_dia ''7'' ''2024-12-25'' rs)) = 35)"
    unfolding ts_def by code_simp
  have v1: "map (\<lambda>r. (total_pontos_turno (pontos r), bonus_meta_diaria r, total_pontos_final r)) rs
       = [(200, 300, 500), (400, 300, 700), (250, 0, 250), (200, 0, 200)]"
    and v2: "map bonus_meta_diaria (grupo_do_dia ''7'' ''2024-12-25'' rs) = [300, 0, 0]"
    and v3: "sum_list (map corridas (grupo_do_dia ''7'' ''2024-12-25'' rs)) = 35"
    using ev unfolding rs by simp_all
  define g where "g = grupo_do_dia ''7'' ''2024-12-25'' rs"
  have ne: "g \<noteq> []"
    using v2 unfolding g_def by auto
  have first: "bonus_meta_diaria (hd g) = calcularBonusMetaDiaria (sum_list (map corridas g))"
    using grp bar' ne unfolding g_def by blast
  show ?thesis
    unfolding ts_def [symmetric]
    using bar rs v1 v2 v3 first unfolding g_def by (intro conjI exI [of _ rs])
qed

section \<open>The ranking: totals and order\<close>

lemma acumular_id [simp]:
  "id_da_pessoa_entregadora (acumular t e) = id_da_pessoa_entregadora e"
  by (simp add: acumular_def)

lemma turnos_de_snoc:
  "turnos_de w (ts @ [t]) = (if id_da_pessoa_entregadora t = w then turnos_de w ts @ [t] else turnos_de w ts)"
  by (simp add: turnos_de_def)

lemma totais_corretos_acumular:
  "totais_corretos ts e \<Longrightarrow> id_da_pessoa_entregadora e = id_da_pessoa_entregadora t \<Longrightarrow>
     totais_corretos (ts @ [t]) (acumular t e)"
  by (simp add: totais_corretos_def turnos_de_snoc acumular_def)

lemma totais_corretos_other:
  "totais_corretos ts e \<Longrightarrow> id_da_pessoa_entregadora e \<noteq> id_da_pessoa_entregadora t \<Longrightarrow>
     totais_corretos (ts @ [t]) e"
  by (simp add: totais_corretos_def turnos_de_snoc)

lemma totais_corretos_novo:
  "turnos_de (id_da_pessoa_entregadora t) ts = [] \<Longrightarrow>
     totais_corretos (ts @ [t]) (acumular t (novo_acumulado t))"
  by (simp add: totais_corretos_def turnos_de_snoc acumular_def novo_acumulado_def)

lemma map_fst_update:
  "map fst (map (\<lambda>(k, v). if k = i then (k, f v) else (k, v)) ps) = map fst ps"
  by (induction ps) auto

lemma set_update:
  assumes "p \<in> set (map (\<lambda>(k, v). if k = i then (k, f v) else (k, v)) ps)"
  shows "\<exists>q \<in> set ps. fst p = fst q \<and> snd p = (if fst q = i then f (snd q) else snd q)"
proof -
  from assms obtain q where q: "q \<in> set ps"
    "p = (case q of (k, v) \<Rightarrow> if k = i then (k, f v) else (k, v))" by auto
  obtain k v where kv: "q = (k, v)" by (cases q)
  show ?thesis
    using q kv by (auto intro!: bexI [of _ q])
qed

lemma agregar_ok:
  assumes inv: "entregadores_ok es ts"
  shows "entregadores_ok (agregar es t) (ts @ [t])"
proof (cases "map_of es (id_da_pessoa_entregadora t)")
  case (Some e)
  let ?i = "id_da_pessoa_entregadora t"
  define es' where "es' = map (\<lambda>(k, v). if k = ?i then (k, acumular t v) else (k, v)) es"
  have eq: "agregar es t = es'" using Some by (simp add: agregar_def es'_def)
  have fst_eq: "map fst es' = map fst es" unfolding es'_def by (rule map_fst_update)
  have mem: "?i \<in> fst ` set es" using map_of_SomeD [OF Some] by force
  have rows: "\<forall>p \<in> set es'. id_da_pessoa_entregadora (snd p) = fst p
            \<and> fst p \<notin> set object_prototype_keys \<and> totais_corretos (ts @ [t]) (snd p)"
  proof
    fix p assume "p \<in> set es'"
    then have "p \<in> set (map (\<lambda>(k, v). if k = ?i then (k, acumular t v) else (k, v)) es)"
      by (simp only: es'_def)
    from set_update [OF this] obtain q where q: "q \<in> set es" "fst p = fst q"
      "snd p = (if fst q = ?i then acumular t (snd q) else snd q)"
      by blast
    have qi: "id_da_pessoa_entregadora (snd q) = fst q" "fst q \<notin> set object_prototype_keys"
      "totais_corretos ts (snd q)"
      using inv q(1) by (auto simp: entregadores_ok_def)
    show "id_da_pessoa_entregadora (snd p) = fst p
            \<and> fst p \<notin> set object_prototype_keys \<and> totais_corretos (ts @ [t]) (snd p)"
    proof (cases "fst q = ?i")
      case True
      then show ?thesis using q qi by (simp add: totais_corretos_acumular)
    next
      case False
      then show ?thesis using q qi by (simp add: totais_corretos_other)
    qed
  qed
  have img: "fst ` set es' = fst ` set es" using fst_eq by (metis set_map)
  have d: "distinct (map fst es')" using inv fst_eq by (simp add: entregadores_ok_def)
  have c: "\<forall>u \<in> set (ts @ [t]). id_da_pessoa_entregadora u \<notin> set object_prototype_keys
            \<longrightarrow> id_da_pessoa_entregadora u \<in> fst ` set es'"
    using inv mem unfolding img by (auto simp: entregadores_ok_def)
  have s: "fst ` set es' \<subseteq> id_da_pessoa_entregadora ` set (ts @ [t])"
    using inv unfolding img by (auto simp: entregadores_ok_def)
  show ?thesis
    unfolding eq entregadores_ok_def using d rows c s by blast
next
  case None
  let ?i = "id_da_pessoa_entregadora t"
  have notin: "?i \<notin> fst ` set es" using None by (simp add: map_of_eq_None_iff)
  have old: "\<forall>p \<in> set es. id_da_pessoa_entregadora (snd p) = fst p
            \<and> fst p \<notin> set object_prototype_keys \<and> totais_corretos (ts @ [t]) (snd p)"
  proof
    fix p assume p: "p \<in> set es"
    have pi: "id_da_pessoa_entregadora (snd p) = fst p" "fst p \<notin> set object_prototype_keys"
      "totais_corretos ts (snd p)"
      using inv p by (auto simp: entregadores_ok_def)
    have "fst p \<noteq> ?i" using notin p by (metis imageI)
    then show "id_da_pessoa_entregadora (snd p) = fst p
            \<and> fst p \<notin> set object_prototype_keys \<and> totais_corretos (ts @ [t]) (snd p)"
      using pi by (simp add: totais_corretos_other)
  qed
  show ?thesis
  proof (cases "?i \<in> set object_prototype_keys")
    case True
    then have eq: "agregar es t = es" using None by (simp add: agregar_def)
    have d: "distinct (map fst es)" using inv by (simp add: entregadores_ok_def)
    have c: "\<forall>u \<in> set (ts @ [t]). id_da_pessoa_entregadora u \<notin> set object_prototype_keys
            \<longrightarrow> id_da_pessoa_entregadora u \<in> fst ` set es"
      using inv True by (auto simp: entregadores_ok_def)
    have s: "fst ` set es \<subseteq> id_da_pessoa_entregadora ` set (ts @ [t])"
      using inv by (auto simp: entregadores_ok_def)
    show ?thesis
      unfolding eq entregadores_ok_def using d old c s by blast
  next
    case False
    define es' where "es' = es @ [(?i, acumular t (novo_acumulado t))]"
    have eq: "agregar es t = es'"
      using None False by (simp add: agregar_def es'_def)
    have "\<forall>u \<in> set ts. id_da_pessoa_entregadora u \<noteq> ?i"
    proof
      fix u assume u: "u \<in> set ts"
      show "id_da_pessoa_entregadora u \<noteq> ?i"
      proof
        assume e: "id_da_pessoa_entregadora u = ?i"
        then have "id_da_pessoa_entregadora u \<notin> set object_prototype_keys"
          using False by simp
        then have "id_da_pessoa_entregadora u \<in> fst ` set es"
          using inv u by (simp add: entregadores_ok_def)
        then show False using notin e by simp
      qed
    qed
    then have empty: "turnos_de ?i ts = []"
      by (simp add: turnos_de_def filter_empty_conv)
    have new: "totais_corretos (ts @ [t]) (acumular t (novo_acumulado t))"
      using empty by (rule totais_corretos_novo)
    have idn: "id_da_pessoa_entregadora (acumular t (novo_acumulado t)) = ?i"
      by (simp add: novo_acumulado_def)
    have d: "distinct (map fst es')"
      using inv notin by (simp add: entregadores_ok_def es'_def)
    have rows: "\<forall>p \<in> set es'. id_da_pessoa_entregadora (snd p) = fst p
            \<and> fst p \<notin> set object_prototype_keys \<and> totais_corretos (ts @ [t]) (snd p)"
      using old new idn False by (simp add: es'_def)
    have img: "fst ` set es' = insert ?i (fst ` set es)" by (simp add: es'_def)
    have c: "\<forall>u \<in> set (ts @ [t]). id_da_pessoa_entregadora u \<notin> set object_prototype_keys
            \<longrightarrow> id_da_pessoa_entregadora u \<in> fst ` set es'"
      using inv unfolding img by (auto simp: entregadores_ok_def)
    have s: "fst ` set es' \<subseteq> id_da_pessoa_entregadora ` set (ts @ [t])"
      using inv unfolding img by (auto simp: entregadores_ok_def)
    show ?thesis
      unfolding eq entregadores_ok_def using d rows c s by blast
  qed
qed

lemma foldl_agregar_ok: "entregadores_ok (foldl agregar [] ts) ts"
proof (induction ts rule: rev_induct)
  case Nil
  show ?case by (simp add: entregadores_ok_def)
next
  case (snoc t ts)
  then show ?case by (simp add: agregar_ok)
qed

lemma set_object_values: "set (object_values ps) = snd ` set ps"
  by (auto simp: object_values_def)

lemma mset_object_values: "mset (object_values ps) = image_mset snd (mset ps)"
proof -
  have "mset (sort_key (\<lambda>p. digits_val (fst p)) (filter (\<lambda>p. is_array_index (fst p)) ps)
              @ filter (\<lambda>p. \<not> is_array_index (fst p)) ps) = mset ps"
    by simp
  then show ?thesis
    unfolding object_values_def by (metis mset_map)
qed

lemma linha_fields [simp]:
  "id_da_pessoa_entregadora (linha e) = id_da_pessoa_entregadora e"
  "total_pontos (linha e) = total_pontos e"
  "total_entregas (linha e) = total_entregas e"
  "total_turnos (linha e) = total_turnos e"
  by (simp_all add: linha_def)

lemma totais_corretos_linha [simp]: "totais_corretos ts (linha e) = totais_corretos ts e"
  by (simp add: totais_corretos_def)

lemma set_calcularRanking:
  "set (calcularRanking ts) = linha ` snd ` set (foldl agregar [] ts)"
  by (simp add: calcularRanking_def Let_def set_object_values)

lemma ids_calcularRanking:
  "mset (map id_da_pessoa_entregadora (calcularRanking ts)) = mset (map fst (foldl agregar [] ts))"
proof -
  let ?es = "foldl agregar [] ts"
  have ok: "entregadores_ok ?es ts" by (rule foldl_agregar_ok)
  have "mset (map id_da_pessoa_entregadora (calcularRanking ts))
        = image_mset id_da_pessoa_entregadora (image_mset linha (mset (object_values ?es)))"
    by (simp add: calcularRanking_def Let_def)
  also have "\<dots> = image_mset (\<lambda>p. id_da_pessoa_entregadora (snd p)) (mset ?es)"
    by (simp add: mset_object_values multiset.map_comp comp_def)
  also have "\<dots> = image_mset fst (mset ?es)"
    using ok by (intro image_mset_cong) (auto simp: entregadores_ok_def)
  finally show ?thesis by simp
qed

text \<open>
  Claim C5. Every row of the ranking holds the totals of its worker: \<^verbatim>\<open>total_pontos\<close> is
  the sum of \<^verbatim>\<open>total_pontos_final\<close> over the worker's shifts, \<^verbatim>\<open>total_entregas\<close> the
  sum of their completed deliveries with a missing count as 0, \<^verbatim>\<open>total_turnos\<close> their
  number. No worker has two rows and every row belongs to a worker of the input. A worker
  of the input has a row when the identifier is not one of the names that a plain object
  inherits. For those names the claim fails: the loop finds the inherited property,
  creates no row, and the worker is missing from the ranking, as for the single shift of
  the worker \<^verbatim>\<open>constructor\<close>.
\<close>

theorem ranking_totals:
  "(\<forall>e \<in> set (calcularRanking ts). totais_corretos ts e)
   \<and> distinct (map id_da_pessoa_entregadora (calcularRanking ts))
   \<and> (\<forall>t \<in> set ts. id_da_pessoa_entregadora t \<notin> set object_prototype_keys \<longrightarrow>
         (\<exists>e \<in> set (calcularRanking ts).
            id_da_pessoa_entregadora e = id_da_pessoa_entregadora t))
   \<and> (\<forall>e \<in> set (calcularRanking ts).
         id_da_pessoa_entregadora e \<notin> set object_prototype_keys
         \<and> (\<exists>t \<in> set ts. id_da_pessoa_entregadora t = id_da_pessoa_entregadora e))
   \<and> calcularRanking [final_exemplo ''constructor'' (Some 3) 80] = []"
proof -
  let ?es = "foldl agregar [] ts"
  have ok: "entregadores_ok ?es ts" by (rule foldl_agregar_ok)
  have a: "\<forall>e \<in> set (calcularRanking ts). totais_corretos ts e"
    using ok by (auto simp: set_calcularRanking entregadores_ok_def)
  have "distinct (map fst ?es)" using ok by (simp add: entregadores_ok_def)
  then have b: "distinct (map id_da_pessoa_entregadora (calcularRanking ts))"
    using ids_calcularRanking [of ts] by (metis mset_eq_imp_distinct_iff)
  have ids: "id_da_pessoa_entregadora ` set (calcularRanking ts) = fst ` set ?es"
    using ids_calcularRanking [of ts] by (metis mset_eq_setD set_map)
  have c: "\<forall>t \<in> set ts. id_da_pessoa_entregadora t \<notin> set object_prototype_keys \<longrightarrow>
         (\<exists>e \<in> set (calcularRanking ts).
            id_da_pessoa_entregadora e = id_da_pessoa_entregadora t)"
  proof (intro ballI impI)
    fix t assume "t \<in> set ts" "id_da_pessoa_entregadora t \<notin> set object_prototype_keys"
    then have "id_da_pessoa_entregadora t \<in> fst ` set ?es"
      using ok by (auto simp: entregadores_ok_def)
    then have "id_da_pessoa_entregadora t \<in> id_da_pessoa_entregadora ` set (calcularRanking ts)"
      using ids by simp
    then show "\<exists>e \<in> set (calcularRanking ts).
            id_da_pessoa_entregadora e = id_da_pessoa_entregadora t" by auto
  qed
  have d: "\<forall>e \<in> set (calcularRanking ts).
         id_da_pessoa_entregadora e \<notin> set object_prototype_keys
         \<and> (\<exists>t \<in> set ts. id_da_pessoa_entregadora t = id_da_pessoa_entregadora e)"
  proof
    fix e assume "e \<in> set (calcularRanking ts)"
    then have in_es: "id_da_pessoa_entregadora e \<in> fst ` set ?es" using ids by blast
    then have "id_da_pessoa_entregadora e \<in> id_da_pessoa_entregadora ` set ts"
      using ok by (auto simp: entregadores_ok_def)
    then have from_input: "\<exists>t \<in> set ts. id_da_pessoa_entregadora t = id_da_pessoa_entregadora e"
      by auto
    from in_es obtain p where "p \<in> set ?es" "fst p = id_da_pessoa_entregadora e" by auto
    then have "id_da_pessoa_entregadora e \<notin> set object_prototype_keys"
      using ok by (auto simp: entregadores_ok_def)
    then show "id_da_pessoa_entregadora e \<notin> set object_prototype_keys
         \<and> (\<exists>t \<in> set ts. id_da_pessoa_entregadora t = id_da_pessoa_entregadora e)"
      using from_input by simp
  qed
  have e: "calcularRanking [final_exemplo ''constructor'' (Some 3) 80] = []"
    by code_simp
  show ?thesis using a b c d e by blast
qed

theorem ranking_totals_witness:
  "map (\<lambda>e. (id_da_pessoa_entregadora e, total_pontos e, total_entregas e, total_turnos e))
     (calcularRanking
        [final_exemplo ''b'' (Some 10) 100, final_exemplo ''a'' None 350,
         final_exemplo ''b'' (Some 5) 50, final_exemplo ''constructor'' (Some 1) 10])
     = [(''a'', 350, 0, 1), (''b'', 150, 15, 2)]
   \<and> totais_corretos
        [final_exemplo ''b'' (Some 10) 100, final_exemplo ''a'' None 350,
         final_exemplo ''b'' (Some 5) 50, final_exemplo ''constructor'' (Some 1) 10]
        (hd (calcularRanking
          [final_exemplo ''b'' (Some 10) 100, final_exemplo ''a'' None 350,
           final_exemplo ''b'' (Some 5) 50, final_exemplo ''constructor'' (Some 1) 10]))"
proof -
  define ts where "ts = [final_exemplo ''b'' (Some 10) 100, final_exemplo ''a'' None 350,
         final_exemplo ''b'' (Some 5) 50, final_exemplo ''constructor'' (Some 1) 10]"
  have ev: "map (\<lambda>e. (id_da_pessoa_entregadora e, total_pontos e, total_entregas e, total_turnos e))
     (calcularRanking ts) = [(''a'', 350, 0, 1), (''b'', 150, 15, 2)]"
    unfolding ts_def by code_simp
  then have "calcularRanking ts \<noteq> []" by auto
  then have "hd (calcularRanking ts) \<in> set (calcularRanking ts)" by (rule hd_in_set)
  then have "totais_corretos ts (hd (calcularRanking ts))"
    using ranking_totals [of ts] by blast
  then show ?thesis
    unfolding ts_def [symmetric] using ev by (intro conjI)
qed

text \<open>
  Claim C6. The ranking is sorted by \<^verbatim>\<open>total_pontos\<close> in descending order: the total of
  every row is at least the total of the row that follows it.
\<close>

theorem ranking_sorted_desc:
  "sorted_wrt (\<lambda>a b. total_pontos b \<le> total_pontos a) (calcularRanking ts)
   \<and> (\<forall>i. Suc i < length (calcularRanking ts) \<longrightarrow>
         total_pontos (calcularRanking ts ! Suc i) \<le> total_pontos (calcularRanking ts ! i))"
proof -
  have "sorted (map (\<lambda>e. - total_pontos e) (calcularRanking ts))"
    by (simp add: calcularRanking_def Let_def)
  then have s: "sorted_wrt (\<lambda>a b. total_pontos b \<le> total_pontos a) (calcularRanking ts)"
    by (simp add: sorted_wrt_map)
  then have "\<forall>i. Suc i < length (calcularRanking ts) \<longrightarrow>
         total_pontos (calcularRanking ts ! Suc i) \<le> total_pontos (calcularRanking ts ! i)"
    by (auto simp: sorted_wrt_iff_nth_less)
  then show ?thesis using s by blast
qed

theorem ranking_sorted_desc_witness:
  "map total_pontos (calcularRanking
      [final_exemplo ''b'' (Some 10) 100, final_exemplo ''a'' None 350,
       final_exemplo ''b'' (Some 5) 50, final_exemplo ''c'' (Some 1) 700]) = [700, 350, 150]
   \<and> total_pontos (calcularRanking
      [final_exemplo ''b'' (Some 10) 100, final_exemplo ''a'' None 350,
       final_exemplo ''b'' (Some 5) 50, final_exemplo ''c'' (Some 1) 700] ! Suc 0)
     \<le> total_pontos (calcularRanking
      [final_exemplo ''b'' (Some 10) 100, final_exemplo ''a'' None 350,
       final_exemplo ''b'' (Some 5) 50, final_exemplo ''c'' (Some 1) 700] ! 0)"
proof -
  define ts where "ts = [final_exemplo ''b'' (Some 10) 100, final_exemplo ''a'' None 350,
       final_exemplo ''b'' (Some 5) 50, final_exemplo ''c'' (Some 1) 700]"
  have ev: "map total_pontos (calcularRanking ts) = [700, 350, 150]"
    unfolding ts_def by code_simp
  then have "length (calcularRanking ts) = 3"
    by (metis length_map length_Cons list.size(3) numeral_3_eq_3)
  then have "Suc 0 < length (calcularRanking ts)" by simp
  then have "total_pontos (calcularRanking ts ! Suc 0) \<le> total_pontos (calcularRanking ts ! 0)"
    using ranking_sorted_desc [of ts] by blast
  then show ?thesis
    unfolding ts_def [symmetric] using ev by (intro conjI)
qed

end
